theory Spec2Isabelle
  imports Complex_Main "HOL-Library.Multiset" "HOL-Library.Product_Lexorder"
begin

section \<open>Data model\<close>

text \<open>
  The lines-of-code pipeline of the repository: \<^verbatim>\<open>fetchLoc\<close> (in
  \<^verbatim>\<open>src/fetchers/loc.js\<close>, in a sequential and in a parallel version) collects
  per-repository contributor statistics and merges them into one weekly series;
  \<^verbatim>\<open>renderLocChart\<close> (in four versions) lays the series out as a chart.

  JavaScript numbers that hold counters and timestamps are modelled as unbounded
  \<open>int\<close>: the model is the program on integers below \<open>2^53\<close>, where
  addition on doubles is exact.  Every \<^verbatim>\<open>throw\<close> and every access that raises a
  \<^verbatim>\<open>TypeError\<close> is a value \<open>Inl e\<close> of the result.
\<close>

datatype error = MissingParamError | TypeError | RequestError

text \<open>One element of \<^verbatim>\<open>contributor.weeks\<close> of the statistics endpoint:
  \<^verbatim>\<open>{ w, a, d, c }\<close>.\<close>

record week_entry =
  wk_w :: int
  wk_a :: int
  wk_d :: int
  wk_c :: int

text \<open>A slot of \<^verbatim>\<open>weeklyMap\<close>: \<^verbatim>\<open>{ a, d, c }\<close>.\<close>

record slot =
  slot_a :: int
  slot_d :: int
  slot_c :: int

text \<open>\<^verbatim>\<open>weeklyMap\<close> is a JavaScript object used as a dictionary from week
  timestamp to slot.  It is kept as an association list in insertion order, so that
  the order in which \<^verbatim>\<open>Object.keys\<close> lists the keys is part of the model.\<close>

type_synonym weeklyMap = "(int \<times> slot) list"

record WeeklyData =
  week :: int
  additions :: int
  deletions :: int
  commits :: int

record LocData =
  weeklyData :: "WeeklyData list"
  totalAdditions :: int
  totalDeletions :: int
  totalCommits :: int
  netLines :: int

section \<open>The weekly aggregator\<close>

text \<open>\<^verbatim>\<open>weeklyMap[k].a += x; weeklyMap[k].d += y; weeklyMap[k].c += z\<close> on an
  existing slot: the slot keeps its place.\<close>

definition addToSlot :: "int \<Rightarrow> week_entry \<Rightarrow> weeklyMap \<Rightarrow> weeklyMap" where
  "addToSlot k wk m =
     map (\<lambda>(k', s). if k' = k
            then (k', \<lparr>slot_a = slot_a s + wk_a wk, slot_d = slot_d s + wk_d wk,
                       slot_c = slot_c s + wk_c wk\<rparr>)
            else (k', s)) m"

text \<open>The body of \<^verbatim>\<open>for (const week of contributor.weeks)\<close>: an all-zero week is
  skipped, a missing slot is created as \<^verbatim>\<open>{ a: 0, d: 0, c: 0 }\<close> (a slot is an
  object, so \<^verbatim>\<open>!weeklyMap[week.w]\<close> holds exactly when the key is absent), then
  the three counters are added.\<close>

definition mergeWeek :: "week_entry \<Rightarrow> weeklyMap \<Rightarrow> weeklyMap" where
  "mergeWeek wk m =
     (if wk_a wk = 0 \<and> wk_d wk = 0 \<and> wk_c wk = 0 then m
      else
        let m1 = (case map_of m (wk_w wk) of
                    None \<Rightarrow> m @ [(wk_w wk, \<lparr>slot_a = 0, slot_d = 0, slot_c = 0\<rparr>)]
                  | Some _ \<Rightarrow> m)
        in addToSlot (wk_w wk) wk m1)"

fun mergeWeeks :: "week_entry list \<Rightarrow> weeklyMap \<Rightarrow> weeklyMap" where
  "mergeWeeks [] m = m"
| "mergeWeeks (wk # wks) m = mergeWeeks wks (mergeWeek wk m)"

text \<open>\<^verbatim>\<open>Object.keys\<close>: the keys that are array indices (canonical numeric strings
  of the integers from 0 to \<open>2^32 - 2\<close>) come first in ascending order, then all
  other keys in insertion order.  \<^verbatim>\<open>.map(Number)\<close> reads each key back as the
  number it was written from.\<close>

definition isArrayIndex :: "int \<Rightarrow> bool" where
  "isArrayIndex k \<longleftrightarrow> 0 \<le> k \<and> k \<le> 4294967294"

definition Object_keys :: "weeklyMap \<Rightarrow> int list" where
  "Object_keys m =
     (let ks = map fst m
      in sort (filter isArrayIndex ks) @ filter (\<lambda>k. \<not> isArrayIndex k) ks)"

text \<open>\<^verbatim>\<open>weeks.map((w) => { const d = weeklyMap[w]; totalAdditions += d.a; ... })\<close>:
  the three running totals are threaded through the traversal; reading a counter of
  a missing slot raises a \<^verbatim>\<open>TypeError\<close>.\<close>

fun collectWeeks ::
  "weeklyMap \<Rightarrow> int list \<Rightarrow> int \<times> int \<times> int \<Rightarrow> error + (WeeklyData list \<times> int \<times> int \<times> int)"
where
  "collectWeeks m [] tot = Inr ([], tot)"
| "collectWeeks m (k # ks) (ta, td, tc) =
     (case map_of m k of
        None \<Rightarrow> Inl TypeError
      | Some s \<Rightarrow>
          (case collectWeeks m ks (ta + slot_a s, td + slot_d s, tc + slot_c s) of
             Inl e \<Rightarrow> Inl e
           | Inr (ws, tot) \<Rightarrow>
               Inr (\<lparr>week = k, additions = slot_a s, deletions = slot_d s,
                     commits = slot_c s\<rparr> # ws, tot)))"

text \<open>Step 3 of \<^verbatim>\<open>fetchLoc\<close>: sort the keys with the comparator
  \<^verbatim>\<open>(a, b) => a - b\<close>, build \<^verbatim>\<open>weeklyData\<close> and the totals.\<close>

definition buildLocData :: "weeklyMap \<Rightarrow> error + LocData" where
  "buildLocData m =
     (case collectWeeks m (sort (Object_keys m)) (0, 0, 0) of
        Inl e \<Rightarrow> Inl e
      | Inr (ws, (ta, td, tc)) \<Rightarrow>
          Inr \<lparr>weeklyData = ws, totalAdditions = ta, totalDeletions = td,
               totalCommits = tc, netLines = ta - td\<rparr>)"

section \<open>Strings\<close>

text \<open>\<^verbatim>\<open>toLowerCase\<close> on the ASCII letters (GitHub logins are ASCII), the
  comma split of \<^verbatim>\<open>include_orgs.split(",")\<close> and \<^verbatim>\<open>trim\<close> on the ASCII
  white space characters.\<close>

definition lowerChar :: "char \<Rightarrow> char" where
  "lowerChar ch =
     (let n = (of_char ch :: nat) in if 65 \<le> n \<and> n \<le> 90 then char_of (n + 32) else ch)"

definition toLowerCase :: "string \<Rightarrow> string" where
  "toLowerCase s = map lowerChar s"

fun split_comma :: "string \<Rightarrow> string list" where
  "split_comma [] = [[]]"
| "split_comma (ch # cs) =
     (if ch = CHR '','' then [] # split_comma cs
      else (case split_comma cs of [] \<Rightarrow> [[ch]] | x # xs \<Rightarrow> (ch # x) # xs))"

definition isSpace :: "char \<Rightarrow> bool" where
  "isSpace ch \<longleftrightarrow> (of_char ch :: nat) \<in> {9, 10, 11, 12, 13, 32}"

definition trim :: "string \<Rightarrow> string" where
  "trim s = rev (dropWhile isSpace (rev (dropWhile isSpace s)))"

section \<open>The provider\<close>

text \<open>A repository reference \<^verbatim>\<open>{ owner, name }\<close>.\<close>

record repo =
  owner :: string
  name :: string

text \<open>The payload of the contributor statistics endpoint.  \<^verbatim>\<open>res.data\<close> is either
  not an array or an array of contributor entries.  An entry's \<^verbatim>\<open>author\<close> may be
  null, may lack a \<^verbatim>\<open>login\<close>, or carries one; its \<^verbatim>\<open>weeks\<close> may be missing
  (\<open>None\<close>: iterating it raises a \<^verbatim>\<open>TypeError\<close>) or is a list of week entries.\<close>

datatype author = AuthorNull | AuthorNoLogin | AuthorLogin string

record contributor =
  author :: author
  weeks :: "week_entry list option"

datatype payload = NotArray | Contributors "contributor list"

record response =
  status :: nat
  data :: payload

text \<open>What the program does to the outside world, in program order.\<close>

datatype event =
    UserReposRequest string
  | OrgReposRequest string
  | RepoStatsRequest repo
  | Sleep nat

text \<open>The transport (\<^verbatim>\<open>retryer\<close>, \<^verbatim>\<open>request\<close>, \<^verbatim>\<open>axios\<close>) is imported from
  elsewhere; it is a parameter.  Each call either throws (\<open>Inl\<close>) or returns.  A repository listing returns \<open>None\<close> when
  \<^verbatim>\<open>data.data\<close> or the \<^verbatim>\<open>user\<close>/\<^verbatim>\<open>organization\<close> in it is missing, and the
  nodes otherwise.  \<open>statsCall W r i\<close> is the outcome of the \<open>i\<close>-th statistics
  call for repository \<open>r\<close>, counted from 0.\<close>

record world =
  userReposCall :: "string \<Rightarrow> error + repo list option"
  orgReposCall :: "string \<Rightarrow> error + string list option"
  statsCall :: "repo \<Rightarrow> nat \<Rightarrow> error + response"

section \<open>Repository discovery\<close>

text \<open>The first \<^verbatim>\<open>try\<close> of \<^verbatim>\<open>fetchLoc\<close>: a failure is caught and logged and leaves
  \<^verbatim>\<open>repos\<close> as it is.\<close>

definition userRepos :: "world \<Rightarrow> string \<Rightarrow> repo list \<times> event list" where
  "userRepos W username =
     (case userReposCall W username of
        Inl e \<Rightarrow> []
      | Inr None \<Rightarrow> []
      | Inr (Some nodes) \<Rightarrow> nodes,
      [UserReposRequest username])"

text \<open>The second argument of \<^verbatim>\<open>fetchLoc\<close> is \<^verbatim>\<open>req.query.include_orgs\<close> as the
  HTTP handler passes it on, unchanged: absent, a string, or an array of strings when
  the parameter is given more than once.\<close>

datatype queryValue = Absent | Single string | Repeated "string list"

text \<open>\<^verbatim>\<open>include_orgs ? include_orgs.split(",").map((o) => o.trim()).filter(Boolean) : []\<close>.
  An array is truthy, also the empty one, and has no \<^verbatim>\<open>split\<close>: the call raises a
  \<^verbatim>\<open>TypeError\<close>.\<close>

definition parseOrgs :: "queryValue \<Rightarrow> error + string list" where
  "parseOrgs include_orgs =
     (case include_orgs of
        Absent \<Rightarrow> Inr []
      | Single s \<Rightarrow>
          Inr (if s = [] then [] else filter (\<lambda>o'. o' \<noteq> []) (map trim (split_comma s)))
      | Repeated xs \<Rightarrow> Inl TypeError)"

text \<open>\<^verbatim>\<open>for (const org of orgs)\<close>, each listing in its own \<^verbatim>\<open>try\<close>; the owner of
  an organisation's repository is the organisation name as supplied.\<close>

fun orgRepos :: "world \<Rightarrow> string list \<Rightarrow> repo list \<times> event list" where
  "orgRepos W [] = ([], [])"
| "orgRepos W (org # orgs) =
     (let found = (case orgReposCall W org of
                     Inl e \<Rightarrow> []
                   | Inr None \<Rightarrow> []
                   | Inr (Some nodes) \<Rightarrow> map (\<lambda>n. \<lparr>owner = org, name = n\<rparr>) nodes);
          (rest, tr) = orgRepos W orgs
      in (found @ rest, OrgReposRequest org # tr))"

text \<open>Deduplication by the key \<^verbatim>\<open>`${r.owner}/${r.name}`\<close>; the first occurrence
  stays.\<close>

fun dedupe :: "string list \<Rightarrow> repo list \<Rightarrow> repo list" where
  "dedupe seen [] = []"
| "dedupe seen (r # rs) =
     (let key = owner r @ ''/'' @ name r
      in if key \<in> set seen then dedupe seen rs else r # dedupe (key # seen) rs)"

text \<open>Step 1 of \<^verbatim>\<open>fetchLoc\<close>, the same in both versions.  The computation of
  \<^verbatim>\<open>orgs\<close> is outside every \<^verbatim>\<open>try\<close>: its exception leaves \<^verbatim>\<open>fetchLoc\<close>, after
  the listing of the user's repositories has been requested.\<close>

definition collectRepos ::
  "world \<Rightarrow> string \<Rightarrow> queryValue \<Rightarrow> (error + repo list) \<times> event list"
where
  "collectRepos W username include_orgs =
     (let (own, tr1) = userRepos W username
      in case parseOrgs include_orgs of
           Inl e \<Rightarrow> (Inl e, tr1)
         | Inr orgs \<Rightarrow>
             let (found, tr2) = orgRepos W orgs
             in (Inr (dedupe [] (own @ found)), tr1 @ tr2))"

section \<open>The statistics collector\<close>

text \<open>\<^verbatim>\<open>res.data.find((c) => c.author && c.author.login.toLowerCase() ===
  username.toLowerCase())\<close>: the first entry whose login matches; an entry with an
  author but no login makes the predicate raise.\<close>

fun findContributor :: "string \<Rightarrow> contributor list \<Rightarrow> error + contributor option" where
  "findContributor username [] = Inr None"
| "findContributor username (c # cs) =
     (case author c of
        AuthorNull \<Rightarrow> findContributor username cs
      | AuthorNoLogin \<Rightarrow> Inl TypeError
      | AuthorLogin l \<Rightarrow>
          if toLowerCase l = toLowerCase username then Inr (Some c)
          else findContributor username cs)"

subsection \<open>Sequential version (\<^verbatim>\<open>src/src/fetchers/loc.js\<close>)\<close>

text \<open>The body of the \<^verbatim>\<open>try\<close> inside \<^verbatim>\<open>for (const repo of repos)\<close>.  The calls go
  through \<^verbatim>\<open>retryer\<close>; a status of 202 is followed by a pause of 2000 ms and one
  more call.  \<open>Inl\<close> is an exception leaving the block; \<^verbatim>\<open>continue\<close> returns
  the map unchanged.\<close>

definition tryRepo ::
  "world \<Rightarrow> string \<Rightarrow> repo \<Rightarrow> weeklyMap \<Rightarrow> (error + weeklyMap) \<times> event list"
where
  "tryRepo W username r m =
     (case statsCall W r 0 of
        Inl e \<Rightarrow> (Inl e, [RepoStatsRequest r])
      | Inr res0 \<Rightarrow>
          let (res', tr) =
                (if status res0 = 202
                 then (statsCall W r 1, [RepoStatsRequest r, Sleep 2000, RepoStatsRequest r])
                 else (Inr res0, [RepoStatsRequest r]))
          in (case res' of
                Inl e \<Rightarrow> Inl e
              | Inr res \<Rightarrow>
                  (case data res of
                     NotArray \<Rightarrow> Inr m
                   | Contributors cs \<Rightarrow>
                       (case findContributor username cs of
                          Inl e \<Rightarrow> Inl e
                        | Inr None \<Rightarrow> Inr m
                        | Inr (Some c) \<Rightarrow>
                            (case weeks c of
                               None \<Rightarrow> Inl TypeError
                             | Some wks \<Rightarrow> Inr (mergeWeeks wks m)))),
              tr))"

text \<open>The loop over the repositories: the \<^verbatim>\<open>catch\<close> logs and goes on with the
  next repository.\<close>

fun repoLoop :: "world \<Rightarrow> string \<Rightarrow> repo list \<Rightarrow> weeklyMap \<Rightarrow> weeklyMap \<times> event list" where
  "repoLoop W username [] m = (m, [])"
| "repoLoop W username (r # rs) m =
     (let (res, tr) = tryRepo W username r m;
          m' = (case res of Inl e \<Rightarrow> m | Inr m1 \<Rightarrow> m1);
          (m'', tr') = repoLoop W username rs m'
      in (m'', tr @ tr'))"

text \<open>\<^verbatim>\<open>fetchLoc(username, include_orgs)\<close>; an absent user name is \<open>None\<close>, and
  \<^verbatim>\<open>!username\<close> holds for the absent and for the empty string.\<close>

definition fetchLoc ::
  "world \<Rightarrow> string option \<Rightarrow> queryValue \<Rightarrow> (error + LocData) \<times> event list"
where
  "fetchLoc W username include_orgs =
     (case username of
        None \<Rightarrow> (Inl MissingParamError, [])
      | Some u \<Rightarrow>
          if u = [] then (Inl MissingParamError, [])
          else
            (case collectRepos W u include_orgs of
               (Inl e, tr1) \<Rightarrow> (Inl e, tr1)
             | (Inr repos, tr1) \<Rightarrow>
                 let (m, tr2) = repoLoop W u repos []
                 in (buildLocData m, tr1 @ tr2)))"

subsection \<open>Parallel version (\<^verbatim>\<open>src/unnamed/part_000\<close>)\<close>

datatype 'a settled = Fulfilled 'a | Rejected error

text \<open>\<^verbatim>\<open>fetchOneRepo\<close>: the calls go to \<^verbatim>\<open>axios\<close> directly, with every status
  accepted; a status of 202 is followed by a pause of 1500 ms and one more call.  A
  payload that is not an array gives \<^verbatim>\<open>null\<close>.\<close>

definition fetchOneRepo ::
  "world \<Rightarrow> string \<Rightarrow> repo \<Rightarrow> contributor option settled \<times> event list"
where
  "fetchOneRepo W username r =
     (case statsCall W r 0 of
        Inl e \<Rightarrow> (Rejected e, [RepoStatsRequest r])
      | Inr res0 \<Rightarrow>
          let (res', tr) =
                (if status res0 = 202
                 then (statsCall W r 1, [RepoStatsRequest r, Sleep 1500, RepoStatsRequest r])
                 else (Inr res0, [RepoStatsRequest r]))
          in (case res' of
                Inl e \<Rightarrow> Rejected e
              | Inr res \<Rightarrow>
                  (case data res of
                     NotArray \<Rightarrow> Fulfilled None
                   | Contributors cs \<Rightarrow>
                       (case findContributor username cs of
                          Inl e \<Rightarrow> Rejected e
                        | Inr found \<Rightarrow> Fulfilled found)),
              tr))"

text \<open>\<^verbatim>\<open>for (const result of results)\<close>: a rejected or empty result is skipped.
  This loop is outside every \<^verbatim>\<open>try\<close>, so a contributor entry without
  \<^verbatim>\<open>weeks\<close> ends \<^verbatim>\<open>fetchLoc\<close> with a \<^verbatim>\<open>TypeError\<close>.\<close>

fun mergeResults :: "contributor option settled list \<Rightarrow> weeklyMap \<Rightarrow> error + weeklyMap" where
  "mergeResults [] m = Inr m"
| "mergeResults (Rejected e # rs) m = mergeResults rs m"
| "mergeResults (Fulfilled None # rs) m = mergeResults rs m"
| "mergeResults (Fulfilled (Some c) # rs) m =
     (case weeks c of
        None \<Rightarrow> Inl TypeError
      | Some wks \<Rightarrow> mergeResults rs (mergeWeeks wks m))"

text \<open>Everything from the merge loop to the \<^verbatim>\<open>return\<close>: the aggregation of the
  settled per-repository results.\<close>

definition aggregate :: "contributor option settled list \<Rightarrow> error + LocData" where
  "aggregate results =
     (case mergeResults results [] of
        Inl e \<Rightarrow> Inl e
      | Inr m \<Rightarrow> buildLocData m)"

text \<open>The parallel \<^verbatim>\<open>fetchLoc\<close>.  \<^verbatim>\<open>Promise.allSettled\<close> gives one result per
  repository, in the order of \<^verbatim>\<open>repos\<close>; the requests of different repositories
  overlap in time, so their events are kept per repository.\<close>

definition fetchLoc_part000 ::
  "world \<Rightarrow> string option \<Rightarrow> queryValue \<Rightarrow> (error + LocData) \<times> event list \<times> event list list"
where
  "fetchLoc_part000 W username include_orgs =
     (case username of
        None \<Rightarrow> (Inl MissingParamError, [], [])
      | Some u \<Rightarrow>
          if u = [] then (Inl MissingParamError, [], [])
          else
            (case collectRepos W u include_orgs of
               (Inl e, tr1) \<Rightarrow> (Inl e, tr1, [])
             | (Inr repos, tr1) \<Rightarrow>
                 let settled = map (fetchOneRepo W u) repos
                 in (aggregate (map fst settled), tr1, map snd settled)))"

section \<open>Number formatting\<close>

text \<open>\<^verbatim>\<open>n.toString()\<close> of an integer.\<close>

definition digitChar :: "nat \<Rightarrow> char" where
  "digitChar n = ''0123456789'' ! n"

fun digits :: "nat \<Rightarrow> string" where
  "digits n = (if n < 10 then [digitChar n] else digits (n div 10) @ [digitChar (n mod 10)])"

declare digits.simps [simp del]

definition toString :: "int \<Rightarrow> string" where
  "toString n = (if n < 0 then ''-'' @ digits (nat (- n)) else digits (nat n))"

text \<open>The quotient \<^verbatim>\<open>n / 1000\<close> of two doubles is the double nearest to the exact
  quotient, ties to even.  \<open>toDouble\<close> is that rounding for a quotient of
  magnitude at least 1 and below the overflow threshold, the only ones \<^verbatim>\<open>formatNum\<close>
  forms: the significand is rounded to 53 bits, the exponent being that of the integer
  part.\<close>

fun log2floor :: "nat \<Rightarrow> nat" where
  "log2floor n = (if n < 2 then 0 else Suc (log2floor (n div 2)))"

declare log2floor.simps [simp del]

definition roundHalfEven :: "real \<Rightarrow> int" where
  "roundHalfEven q =
     (let f = \<lfloor>q\<rfloor>; r = q - of_int f
      in if r < 1 / 2 then f else if 1 / 2 < r then f + 1 else if even f then f else f + 1)"

definition toDouble :: "real \<Rightarrow> real" where
  "toDouble q =
     (if q = 0 then 0
      else
        let e = log2floor (nat \<lfloor>\<bar>q\<bar>\<rfloor>);
            ulp = (2 :: real) ^ e / 2 ^ 52
        in of_int (roundHalfEven (q / ulp)) * ulp)"

text \<open>\<^verbatim>\<open>x.toFixed(1)\<close>: the sign, then the integer \<open>k\<close> with \<open>k / 10\<close> nearest
  to the magnitude (the larger one on a tie), with one digit after the point.\<close>

definition toFixed1 :: "real \<Rightarrow> string" where
  "toFixed1 x =
     (let k = nat \<lfloor>\<bar>x\<bar> * 10 + 1 / 2\<rfloor>
      in (if x < 0 then ''-'' else []) @ digits (k div 10) @ ''.'' @ [digitChar (k mod 10)])"

text \<open>\<^verbatim>\<open>formatNum\<close> inside the three cumulative renderers.\<close>

definition formatNum :: "int \<Rightarrow> string" where
  "formatNum n =
     (if n \<ge> 1000000 then toFixed1 (toDouble (of_int n / 1000000)) @ ''M''
      else if n \<ge> 1000 then toFixed1 (toDouble (of_int n / 1000)) @ ''K''
      else toString n)"

text \<open>\<^verbatim>\<open>formatNum\<close> of the monthly bar renderer.\<close>

definition formatNum_monthly :: "int \<Rightarrow> string" where
  "formatNum_monthly n =
     (let abs' = \<bar>n\<bar>
      in if abs' \<ge> 1000000 then toFixed1 (toDouble (of_int n / 1000000)) @ ''M''
         else if abs' \<ge> 1000 then toFixed1 (toDouble (of_int n / 1000)) @ ''K''
         else toString n)"

section \<open>The chart layout engine\<close>

definition width :: int where "width = 850"
definition height :: int where "height = 300"
definition padding_top :: int where "padding_top = 50"
definition padding_right :: int where "padding_right = 30"
definition padding_bottom :: int where "padding_bottom = 50"
definition padding_left :: int where "padding_left = 70"
definition chartW :: int where "chartW = width - padding_left - padding_right"
definition chartH :: int where "chartH = height - padding_top - padding_bottom"

text \<open>The colours as \<^verbatim>\<open>getCardColors\<close> resolves them (that function is imported
  from \<^verbatim>\<open>common/color.js\<close>; its result is a parameter).  \<open>bgColor\<close> is \<open>None\<close> when
  it is not a string.\<close>

record cardColors =
  titleColor :: string
  textColor :: string
  bgColor :: "string option"
  borderColor :: string

text \<open>\<^verbatim>\<open>s.replace(/^#/, "")\<close>\<close>

definition stripHash :: "string \<Rightarrow> string" where
  "stripHash s = (case s of [] \<Rightarrow> [] | ch # cs \<Rightarrow> if ch = CHR ''#'' then cs else s)"

definition bg_color_of :: "cardColors \<Rightarrow> string" where
  "bg_color_of cc = (case bgColor cc of Some s \<Rightarrow> stripHash s | None \<Rightarrow> ''fffefe'')"

definition text_color_of :: "cardColors \<Rightarrow> string" where
  "text_color_of cc = stripHash (textColor cc)"

text \<open>The image returned for an empty series, character by character.\<close>

definition noDataSvg :: "string \<Rightarrow> string \<Rightarrow> string" where
  \<open>noDataSvg bg_color text_color =
     ''<svg width="'' @ toString width @ ''" height="'' @ toString height
       @ ''" xmlns="http://www.w3.org/2000/svg">'' @ [CHR 0x0A]
     @ ''      <rect width="100%" height="100%" fill="#'' @ bg_color @ ''" />'' @ [CHR 0x0A]
     @ ''      <text x="50%" y="50%" fill="#'' @ text_color
       @ ''" text-anchor="middle" font-family="'' @ [CHR 0x27] @ ''Segoe UI'' @ [CHR 0x27]
       @ '', Ubuntu, Sans-Serif" font-size="14">No data available</text>'' @ [CHR 0x0A]
     @ ''    </svg>''\<close>

text \<open>A point of the cumulative series: \<^verbatim>\<open>{ week, value, additions, deletions }\<close>.\<close>

record point =
  p_week :: int
  p_value :: int
  p_additions :: int
  p_deletions :: int

text \<open>\<^verbatim>\<open>weeklyData.map((w) => { cumulative += w.additions - w.deletions; ... })\<close>
  with the running total as an argument.\<close>

fun cumulativePoints :: "int \<Rightarrow> WeeklyData list \<Rightarrow> point list" where
  "cumulativePoints cumulative [] = []"
| "cumulativePoints cumulative (x # xs) =
     (let cumulative' = cumulative + (additions x - deletions x)
      in \<lparr>p_week = week x, p_value = cumulative', p_additions = additions x,
           p_deletions = deletions x\<rparr> # cumulativePoints cumulative' xs)"

text \<open>The months window.  \<open>now\<close> is \<^verbatim>\<open>Date.now()\<close>, in milliseconds;
  \<^verbatim>\<open>months && months > 0\<close> holds for a positive number only.\<close>

definition windowPoints :: "int option \<Rightarrow> int \<Rightarrow> point list \<Rightarrow> point list" where
  "windowPoints months now allPoints =
     (case months of
        None \<Rightarrow> allPoints
      | Some mo \<Rightarrow>
          if mo > 0 then
            let cutoff = (of_int now / 1000 - of_int (mo * 30 * 86400) :: real);
                points = filter (\<lambda>p. of_int (p_week p) \<ge> cutoff) allPoints
            in if length points = 0 then allPoints else points
          else allPoints)"

text \<open>\<^verbatim>\<open>points[0]\<close> and \<^verbatim>\<open>points[points.length - 1]\<close>: reading a field of the
  element of an empty array raises.\<close>

definition firstPoint :: "point list \<Rightarrow> error + point" where
  "firstPoint points = (case points of [] \<Rightarrow> Inl TypeError | p # _ \<Rightarrow> Inr p)"

definition lastPoint :: "point list \<Rightarrow> error + point" where
  "lastPoint points = (if points = [] then Inl TypeError else Inr (last points))"

text \<open>\<^verbatim>\<open>x || 1\<close> on a number.\<close>

definition orOne :: "int \<Rightarrow> int" where
  "orOne x = (if x = 0 then 1 else x)"

text \<open>\<^verbatim>\<open>Math.max(...xs, b)\<close> and \<^verbatim>\<open>Math.min(...xs, b)\<close>.\<close>

definition Math_max :: "int list \<Rightarrow> int \<Rightarrow> int" where
  "Math_max xs b = foldr max xs b"

definition Math_min :: "int list \<Rightarrow> int \<Rightarrow> int" where
  "Math_min xs b = foldr min xs b"

record cumulativeChart =
  cc_points :: "point list"
  cc_timeRange :: int
  cc_valRange :: int
  cc_pixelPts :: "(real \<times> real) list"
  cc_yLabels :: "(real \<times> real) list"
  cc_dotPoints :: "point list"
  cc_title :: string
  cc_stats :: "string list"

datatype 'a rendered = NoData string | Chart 'a

text \<open>\<^verbatim>\<open>points.filter((_, i) => i % dotStep === 0 || i === points.length - 1)\<close>\<close>

definition dotPoints :: "nat \<Rightarrow> point list \<Rightarrow> point list" where
  "dotPoints dotCount points =
     (let dotStep = max 1 (length points div dotCount)
      in map snd (filter (\<lambda>(i, p). i mod dotStep = 0 \<or> i + 1 = length points)
                         (zip [0..<length points] points)))"

text \<open>\<^verbatim>\<open>custom_title || "..."\<close>\<close>

definition titleOr :: "string option \<Rightarrow> string \<Rightarrow> string" where
  "titleOr custom_title dflt =
     (case custom_title of None \<Rightarrow> dflt | Some t \<Rightarrow> if t = [] then dflt else t)"

text \<open>The body shared by the three cumulative versions of \<^verbatim>\<open>renderLocChart\<close>,
  from the empty-series test on.  They differ in the time scale (\<open>scale\<close>: the
  identity or the square root of the elapsed fraction), in the number of vertical
  ticks, in the number of dots and in whether a months window is read.  Coordinates
  are exact reals.  The result holds the quantities that the SVG template prints; the
  month labels of the horizontal axis (calendar arithmetic on \<^verbatim>\<open>Date\<close>), the path
  strings and the styling are not part of it.\<close>

definition cumulativeLayout ::
  "(real \<Rightarrow> real) \<Rightarrow> nat \<Rightarrow> nat \<Rightarrow> string \<Rightarrow> string \<Rightarrow> string option \<Rightarrow> int option \<Rightarrow> int
     \<Rightarrow> LocData \<Rightarrow> error + cumulativeChart rendered"
where
  "cumulativeLayout scale yTicks dotCount bg_color text_color custom_title months now dat =
     (if length (weeklyData dat) = 0 then Inr (NoData (noDataSvg bg_color text_color))
      else
        let allPoints = cumulativePoints 0 (weeklyData dat);
            points = windowPoints months now allPoints
        in (case firstPoint points of
              Inl e \<Rightarrow> Inl e
            | Inr p0 \<Rightarrow>
                (case lastPoint points of
                   Inl e \<Rightarrow> Inl e
                 | Inr pn \<Rightarrow>
                     let minTime = p_week p0;
                         maxTime = p_week pn;
                         timeRange = orOne (maxTime - minTime);
                         maxVal = Math_max (map p_value points) 0;
                         minVal = Math_min (map p_value points) 0;
                         valRange = orOne (maxVal - minVal);
                         toX = (\<lambda>t. of_int padding_left
                                  + scale (of_int (t - minTime) / of_int timeRange) * of_int chartW);
                         toY = (\<lambda>v. of_int padding_top + of_int chartH
                                  - ((v - of_int minVal) / of_int valRange) * of_int chartH)
                     in Inr (Chart
                          \<lparr>cc_points = points,
                           cc_timeRange = timeRange,
                           cc_valRange = valRange,
                           cc_pixelPts = map (\<lambda>p. (toX (p_week p), toY (of_int (p_value p)))) points,
                           cc_yLabels =
                             map (\<lambda>i. let val = of_int minVal + (of_int valRange / of_nat yTicks) * of_nat i
                                       in (val, toY val)) [0..<yTicks + 1],
                           cc_dotPoints = dotPoints dotCount points,
                           cc_title = titleOr custom_title ''Lines of Code Contributed'',
                           cc_stats = [''+'' @ formatNum (totalAdditions dat),
                                       ''-'' @ formatNum (totalDeletions dat),
                                       formatNum (netLines dat) @ '' net'']\<rparr>))))"

text \<open>First version (\<^verbatim>\<open>src/unnamed/part_001\<close>, first file): colours straight from
  the options with their defaults, square-root time scale, no months window.\<close>

definition renderLocChart_v1 ::
  "string option \<Rightarrow> string option \<Rightarrow> string option \<Rightarrow> int \<Rightarrow> LocData
     \<Rightarrow> error + cumulativeChart rendered"
where
  "renderLocChart_v1 bg_color text_color custom_title now dat =
     cumulativeLayout sqrt 5 12
       (case bg_color of None \<Rightarrow> ''0D1117'' | Some s \<Rightarrow> s)
       (case text_color of None \<Rightarrow> ''E6EDF3'' | Some s \<Rightarrow> s)
       custom_title None now dat"

text \<open>Themed version with the square-root time scale and the months window
  (\<^verbatim>\<open>src/unnamed/part_001\<close>, third file).\<close>

definition renderLocChart_sqrt ::
  "cardColors \<Rightarrow> string option \<Rightarrow> int option \<Rightarrow> int \<Rightarrow> LocData
     \<Rightarrow> error + cumulativeChart rendered"
where
  "renderLocChart_sqrt cc custom_title months now dat =
     cumulativeLayout sqrt 5 12 (bg_color_of cc) (text_color_of cc) custom_title months now dat"

text \<open>Themed version with the linear time scale, the smoothed curve and the months
  window (\<^verbatim>\<open>src/src/fetchers/loc.js\<close>, second file).\<close>

definition renderLocChart ::
  "cardColors \<Rightarrow> string option \<Rightarrow> int option \<Rightarrow> int \<Rightarrow> LocData
     \<Rightarrow> error + cumulativeChart rendered"
where
  "renderLocChart cc custom_title months now dat =
     cumulativeLayout (\<lambda>x. x) 4 8 (bg_color_of cc) (text_color_of cc) custom_title months now dat"

subsection \<open>Monthly bars (\<^verbatim>\<open>src/unnamed/part_001\<close>, second file)\<close>

text \<open>An entry of \<^verbatim>\<open>monthlyMap\<close>: \<^verbatim>\<open>{ year, month, additions, deletions }\<close>.\<close>

record monthEntry =
  me_year :: int
  me_month :: int
  me_additions :: int
  me_deletions :: int

text \<open>\<^verbatim>\<open>getFullYear()\<close> and \<^verbatim>\<open>getMonth()\<close> of \<^verbatim>\<open>new Date(w.week * 1000)\<close> depend
  on the time zone of the process; the calendar is a parameter \<open>cal\<close> from a
  timestamp in seconds to the year and the month (0 to 11).  \<open>utcYearMonth\<close> is
  the calendar of a process that runs in UTC.\<close>

definition utcYearMonth :: "int \<Rightarrow> int \<times> int" where
  "utcYearMonth t =
     (let z = t div 86400 + 719468;
          era = z div 146097;
          doe = z mod 146097;
          yoe = (doe - doe div 1460 + doe div 36524 - doe div 146096) div 365;
          doy = doe - (365 * yoe + yoe div 4 - yoe div 100);
          mp = (5 * doy + 2) div 153;
          mo = (if mp < 10 then mp + 3 else mp - 9);
          y = yoe + era * 400
      in (if mo \<le> 2 then y + 1 else y, mo - 1))"

text \<open>\<^verbatim>\<open>monthlyMap\<close> is a \<^verbatim>\<open>Map\<close> keyed by \<^verbatim>\<open>`${year}-${month}`\<close>; it is kept in
  insertion order, keyed by the pair.  The loop body: read the entry or start a new
  one, add, and \<^verbatim>\<open>set\<close> it (an existing key keeps its place).\<close>

definition bucketWeek ::
  "(int \<Rightarrow> int \<times> int) \<Rightarrow> WeeklyData \<Rightarrow> ((int \<times> int) \<times> monthEntry) list
     \<Rightarrow> ((int \<times> int) \<times> monthEntry) list"
where
  "bucketWeek cal x mm =
     (let key = cal (week x);
          entry = (case map_of mm key of
                     Some e \<Rightarrow> e
                   | None \<Rightarrow> \<lparr>me_year = fst key, me_month = snd key, me_additions = 0,
                               me_deletions = 0\<rparr>);
          entry' = entry\<lparr>me_additions := me_additions entry + additions x,
                         me_deletions := me_deletions entry + deletions x\<rparr>
      in if map_of mm key = None then mm @ [(key, entry')]
         else map (\<lambda>(k, e). if k = key then (k, entry') else (k, e)) mm)"

fun bucketWeeks ::
  "(int \<Rightarrow> int \<times> int) \<Rightarrow> WeeklyData list \<Rightarrow> ((int \<times> int) \<times> monthEntry) list
     \<Rightarrow> ((int \<times> int) \<times> monthEntry) list"
where
  "bucketWeeks cal [] mm = mm"
| "bucketWeeks cal (x # xs) mm = bucketWeeks cal xs (bucketWeek cal x mm)"

text \<open>\<^verbatim>\<open>[...monthlyMap.values()].sort((a, b) => a.year - b.year || a.month - b.month)\<close>
  and \<^verbatim>\<open>monthlyData.slice(-months)\<close>.\<close>

definition sortMonths :: "monthEntry list \<Rightarrow> monthEntry list" where
  "sortMonths es = sort_key (\<lambda>e. (me_year e, me_month e)) es"

definition sliceLast :: "int \<Rightarrow> 'a list \<Rightarrow> 'a list" where
  "sliceLast n xs = drop (length xs - nat n) xs"

definition visibleMonths ::
  "(int \<Rightarrow> int \<times> int) \<Rightarrow> int option \<Rightarrow> WeeklyData list \<Rightarrow> monthEntry list"
where
  "visibleMonths cal months wd =
     (let monthlyData = sortMonths (map snd (bucketWeeks cal wd []))
      in case months of
           None \<Rightarrow> monthlyData
         | Some mo \<Rightarrow> if mo > 0 then sliceLast mo monthlyData else monthlyData)"

text \<open>The result of the monthly renderer holds the visible months, the two maxima,
  the baseline and the printed totals; the bars, the tick labels and the styling are
  not part of it.\<close>

record barChart =
  bc_months :: "monthEntry list"
  bc_maxAdd :: int
  bc_maxDel :: int
  bc_addRatio :: real
  bc_baselineY :: real
  bc_title :: string
  bc_stats :: "string list"

definition renderLocChart_monthly ::
  "(int \<Rightarrow> int \<times> int) \<Rightarrow> cardColors \<Rightarrow> string option \<Rightarrow> int option \<Rightarrow> LocData
     \<Rightarrow> error + barChart rendered"
where
  "renderLocChart_monthly cal cc custom_title months dat =
     (if length (weeklyData dat) = 0
      then Inr (NoData (noDataSvg (bg_color_of cc) (text_color_of cc)))
      else
        let monthlyData = visibleMonths cal months (weeklyData dat)
        in if length monthlyData = 0
           then Inr (NoData (noDataSvg (bg_color_of cc) (text_color_of cc)))
           else
             let maxAdd = Math_max (map me_additions monthlyData) 1;
                 maxDel = Math_max (map me_deletions monthlyData) 1;
                 addRatio = (of_int maxAdd / of_int (maxAdd + maxDel) :: real);
                 baselineY = of_int padding_top + of_int chartH * addRatio
             in Inr (Chart
                  \<lparr>bc_months = monthlyData,
                   bc_maxAdd = maxAdd,
                   bc_maxDel = maxDel,
                   bc_addRatio = addRatio,
                   bc_baselineY = baselineY,
                   bc_title = titleOr custom_title ''Monthly Code Contributions'',
                   bc_stats = [''+'' @ formatNum_monthly (totalAdditions dat),
                               ''-'' @ formatNum_monthly (totalDeletions dat),
                               formatNum_monthly (netLines dat) @ '' net'']\<rparr>))"

text \<open>The baseline as the specification words it: the share of the largest monthly
  additions in the sum of the largest monthly additions and the largest monthly
  deletions of the visible months.\<close>

definition spec_baselineY :: "monthEntry list \<Rightarrow> real" where
  "spec_baselineY ms =
     (let maxAdditions = Max (set (map me_additions ms));
          maxDeletions = Max (set (map me_deletions ms))
      in of_int padding_top
           + of_int chartH * (of_int maxAdditions / of_int (maxAdditions + maxDeletions)))"

section \<open>Notions used in the statements and proofs\<close>

text \<open>The week entries that the provider can hand out, the assumption that their
  counters are not negative, the slot that a multiset of week entries adds up to for a
  week, the weeks carried by a settled result, and example data.\<close>

text \<open>Every week entry that some statistics call of the provider can hand out.\<close>

definition worldWeeks :: "world \<Rightarrow> week_entry set" where
  "worldWeeks W =
     {wk. \<exists>r i res cs c wks. statsCall W r i = Inr res \<and> data res = Contributors cs \<and>
            c \<in> set cs \<and> weeks c = Some wks \<and> wk \<in> set wks}"

text \<open>The hypothesis of claim C2: no such entry has a negative counter.\<close>

definition nonNegativeCounters :: "world \<Rightarrow> bool" where
  "nonNegativeCounters W \<longleftrightarrow> (\<forall>wk \<in> worldWeeks W. 0 \<le> wk_a wk \<and> 0 \<le> wk_d wk \<and> 0 \<le> wk_c wk)"

text \<open>Every contributor entry of the provider carries its \<^verbatim>\<open>weeks\<close> list, as the
  statistics endpoint documents.\<close>

definition weeksPresent :: "world \<Rightarrow> bool" where
  "weeksPresent W \<longleftrightarrow>
     (\<forall>r i res cs c. statsCall W r i = Inr res \<and> data res = Contributors cs \<and> c \<in> set cs
        \<longrightarrow> weeks c \<noteq> None)"

text \<open>What a multiset of week entries adds up to for one week: nothing when no entry
  with a counter other than zero names the week, and the three sums otherwise.\<close>

definition weekSlot :: "week_entry multiset \<Rightarrow> int \<Rightarrow> slot option" where
  "weekSlot M k =
     (let C = filter_mset (\<lambda>wk. wk_w wk = k \<and> \<not> (wk_a wk = 0 \<and> wk_d wk = 0 \<and> wk_c wk = 0)) M
      in if C = {#} then None
         else Some \<lparr>slot_a = sum_mset (image_mset wk_a C), slot_d = sum_mset (image_mset wk_d C),
                    slot_c = sum_mset (image_mset wk_c C)\<rparr>)"

text \<open>The week entries that a settled result contributes, and the results whose
  contributor entry lacks its \<^verbatim>\<open>weeks\<close>.\<close>

definition resultWeeks :: "contributor option settled \<Rightarrow> week_entry list" where
  "resultWeeks r =
     (case r of
        Fulfilled (Some c) \<Rightarrow> (case weeks c of Some wks \<Rightarrow> wks | None \<Rightarrow> [])
      | _ \<Rightarrow> [])"

definition brokenResult :: "contributor option settled \<Rightarrow> bool" where
  "brokenResult r \<longleftrightarrow> (case r of Fulfilled (Some c) \<Rightarrow> weeks c = None | _ \<Rightarrow> False)"

text \<open>A slot whose counters are not negative and not all zero.\<close>

definition goodSlot :: "slot \<Rightarrow> bool" where
  "goodSlot s \<longleftrightarrow> 0 \<le> slot_a s \<and> 0 \<le> slot_d s \<and> 0 \<le> slot_c s \<and>
                 \<not> (slot_a s = 0 \<and> slot_d s = 0 \<and> slot_c s = 0)"

text \<open>Example providers.  In \<open>exampleWorld\<close> the user has the repositories
  \<^verbatim>\<open>octo/a\<close> (listed twice) and \<^verbatim>\<open>octo/b\<close>; the statistics of \<^verbatim>\<open>octo/a\<close> answer
  202 first and then with data; every organisation listing fails.  In
  \<open>busyWorld\<close> every statistics call answers 202 with no list.\<close>

definition exampleWorld :: world where
  "exampleWorld =
     \<lparr>userReposCall = (\<lambda>login. Inr (Some [\<lparr>owner = ''octo'', name = ''a''\<rparr>,
                                          \<lparr>owner = ''octo'', name = ''b''\<rparr>,
                                          \<lparr>owner = ''octo'', name = ''a''\<rparr>])),
      orgReposCall = (\<lambda>org. Inl RequestError),
      statsCall = (\<lambda>r i.
        if name r = ''a'' then
          (if i = 0 then Inr \<lparr>status = 202, data = NotArray\<rparr>
           else Inr \<lparr>status = 200, data = Contributors
                  [\<lparr>author = AuthorLogin ''Octo'',
                    weeks = Some [\<lparr>wk_w = 20, wk_a = 5, wk_d = 1, wk_c = 1\<rparr>,
                                  \<lparr>wk_w = 10, wk_a = 3, wk_d = 0, wk_c = 1\<rparr>,
                                  \<lparr>wk_w = 30, wk_a = 0, wk_d = 0, wk_c = 0\<rparr>]\<rparr>]\<rparr>)
        else Inr \<lparr>status = 200, data = Contributors
               [\<lparr>author = AuthorNull, weeks = None\<rparr>,
                \<lparr>author = AuthorLogin ''octo'',
                 weeks = Some [\<lparr>wk_w = 20, wk_a = 1, wk_d = 1, wk_c = 1\<rparr>]\<rparr>]\<rparr>)\<rparr>"

definition exampleLocData :: LocData where
  "exampleLocData =
     \<lparr>weeklyData = [\<lparr>week = 10, additions = 3, deletions = 0, commits = 1\<rparr>,
                    \<lparr>week = 20, additions = 6, deletions = 2, commits = 2\<rparr>],
      totalAdditions = 9, totalDeletions = 2, totalCommits = 3, netLines = 7\<rparr>"

definition busyWorld :: world where
  "busyWorld =
     \<lparr>userReposCall = (\<lambda>login. Inr None),
      orgReposCall = (\<lambda>org. Inr None),
      statsCall = (\<lambda>r i. Inr \<lparr>status = 202, data = NotArray\<rparr>)\<rparr>"

text \<open>In \<open>brokenWorld\<close> the user has one repository, and its statistics list the
  user without \<^verbatim>\<open>weeks\<close>.\<close>

definition brokenWorld :: world where
  "brokenWorld =
     \<lparr>userReposCall = (\<lambda>login. Inr (Some [\<lparr>owner = ''octo'', name = ''a''\<rparr>])),
      orgReposCall = (\<lambda>org. Inr None),
      statsCall = (\<lambda>r i. Inr \<lparr>status = 200, data = Contributors
                      [\<lparr>author = AuthorLogin ''octo'', weeks = None\<rparr>]\<rparr>)\<rparr>"

definition exampleResults :: "contributor option settled list" where
  "exampleResults =
     [Fulfilled (Some \<lparr>author = AuthorLogin ''octo'',
                        weeks = Some [\<lparr>wk_w = 20, wk_a = 5, wk_d = 1, wk_c = 1\<rparr>,
                                      \<lparr>wk_w = -7, wk_a = 3, wk_d = 0, wk_c = 1\<rparr>]\<rparr>),
      Rejected RequestError,
      Fulfilled (Some \<lparr>author = AuthorLogin ''Octo'',
                        weeks = Some [\<lparr>wk_w = 5000000000, wk_a = 1, wk_d = 1, wk_c = 1\<rparr>,
                                      \<lparr>wk_w = 20, wk_a = 1, wk_d = 1, wk_c = 1\<rparr>]\<rparr>),
      Fulfilled None]"

text \<open>The chart of a rendering, if it is one, and its visible points.\<close>

definition chartOf :: "error + 'a rendered \<Rightarrow> 'a option" where
  "chartOf r = (case r of Inr (Chart ch) \<Rightarrow> Some ch | _ \<Rightarrow> None)"

definition chartPoints :: "error + cumulativeChart rendered \<Rightarrow> point list" where
  "chartPoints r = (case r of Inr (Chart ch) \<Rightarrow> cc_points ch | _ \<Rightarrow> [])"

text \<open>Claim C8 as the specification words it: the value of the \<open>i\<close>-th visible
  point is the sum of additions minus deletions over the first \<open>i\<close> visible
  points.\<close>

definition netChange :: "point \<Rightarrow> int" where
  "netChange p = p_additions p - p_deletions p"

definition spec_runningNet :: "point list \<Rightarrow> int list" where
  "spec_runningNet pts = map (\<lambda>i. sum_list (map netChange (take (Suc i) pts))) [0..<length pts]"

text \<open>Example series and the charts that the linear renderer draws for them.\<close>

definition exampleColors :: cardColors where
  "exampleColors = \<lparr>titleColor = ''#2f80ed'', textColor = ''#434d58'', bgColor = Some ''#fffefe'',
                     borderColor = ''#e4e2e2''\<rparr>"

definition windowData :: LocData where
  "windowData =
     \<lparr>weeklyData = [\<lparr>week = 0, additions = 100, deletions = 20, commits = 1\<rparr>,
                    \<lparr>week = 1699999999, additions = 50, deletions = 10, commits = 1\<rparr>],
      totalAdditions = 150, totalDeletions = 30, totalCommits = 2, netLines = 120\<rparr>"

definition flatData :: LocData where
  "flatData =
     \<lparr>weeklyData = [\<lparr>week = 1700000000, additions = 5, deletions = 5, commits = 1\<rparr>],
      totalAdditions = 5, totalDeletions = 5, totalCommits = 1, netLines = 0\<rparr>"

definition emptyData :: LocData where
  "emptyData = \<lparr>weeklyData = [], totalAdditions = 0, totalDeletions = 0, totalCommits = 0,
                 netLines = 0\<rparr>"

definition zeroAddData :: LocData where
  "zeroAddData =
     \<lparr>weeklyData = [\<lparr>week = 0, additions = 0, deletions = 3, commits = 1\<rparr>],
      totalAdditions = 0, totalDeletions = 3, totalCommits = 1, netLines = - 3\<rparr>"

definition windowChart :: cumulativeChart where
  "windowChart =
     \<lparr>cc_points = [\<lparr>p_week = 1699999999, p_value = 120, p_additions = 50, p_deletions = 10\<rparr>],
      cc_timeRange = 1, cc_valRange = 120, cc_pixelPts = [(70, 50)],
      cc_yLabels = [(0, 250), (30, 200), (60, 150), (90, 100), (120, 50)],
      cc_dotPoints = [\<lparr>p_week = 1699999999, p_value = 120, p_additions = 50, p_deletions = 10\<rparr>],
      cc_title = ''Lines of Code Contributed'',
      cc_stats = [''+150'', ''-30'', ''120 net'']\<rparr>"

definition fullChart :: cumulativeChart where
  "fullChart =
     \<lparr>cc_points = [\<lparr>p_week = 0, p_value = 80, p_additions = 100, p_deletions = 20\<rparr>,
                   \<lparr>p_week = 1699999999, p_value = 120, p_additions = 50, p_deletions = 10\<rparr>],
      cc_timeRange = 1699999999, cc_valRange = 120, cc_pixelPts = [(70, 350 / 3), (820, 50)],
      cc_yLabels = [(0, 250), (30, 200), (60, 150), (90, 100), (120, 50)],
      cc_dotPoints = [\<lparr>p_week = 0, p_value = 80, p_additions = 100, p_deletions = 20\<rparr>,
                      \<lparr>p_week = 1699999999, p_value = 120, p_additions = 50, p_deletions = 10\<rparr>],
      cc_title = ''Lines of Code Contributed'',
      cc_stats = [''+150'', ''-30'', ''120 net'']\<rparr>"

definition negData :: LocData where
  "negData =
     \<lparr>weeklyData = [\<lparr>week = 1700000000, additions = 0, deletions = 1500000, commits = 1\<rparr>],
      totalAdditions = 0, totalDeletions = 1500000, totalCommits = 1, netLines = - 1500000\<rparr>"

section \<open>Properties of the aggregator\<close>

lemma map_fst_addToSlot: "map fst (addToSlot k wk m) = map fst m"
  by (induction m) (auto simp: addToSlot_def)

lemma map_of_addToSlot:
  "map_of (addToSlot k wk m) k' =
     (if k' = k
      then map_option (\<lambda>s. \<lparr>slot_a = slot_a s + wk_a wk, slot_d = slot_d s + wk_d wk,
                             slot_c = slot_c s + wk_c wk\<rparr>) (map_of m k')
      else map_of m k')"
  by (induction m) (auto simp: addToSlot_def)

lemma map_fst_mergeWeek:
  "map fst (mergeWeek wk m) =
     (if (wk_a wk = 0 \<and> wk_d wk = 0 \<and> wk_c wk = 0) \<or> map_of m (wk_w wk) \<noteq> None
      then map fst m else map fst m @ [wk_w wk])"
  by (auto simp: mergeWeek_def Let_def map_fst_addToSlot split: option.splits)

lemma distinct_mergeWeek: "distinct (map fst m) \<Longrightarrow> distinct (map fst (mergeWeek wk m))"
  by (auto simp: map_fst_mergeWeek map_of_eq_None_iff)

lemma distinct_mergeWeeks: "distinct (map fst m) \<Longrightarrow> distinct (map fst (mergeWeeks wks m))"
  by (induction wks arbitrary: m) (simp_all add: distinct_mergeWeek)

lemma mergeWeeks_append: "mergeWeeks (xs @ ys) m = mergeWeeks ys (mergeWeeks xs m)"
  by (induction xs arbitrary: m) simp_all

lemma map_of_mergeWeek:
  "map_of (mergeWeek wk m) k =
     (if wk_w wk = k \<and> \<not> (wk_a wk = 0 \<and> wk_d wk = 0 \<and> wk_c wk = 0)
      then Some (case map_of m k of
                   None \<Rightarrow> \<lparr>slot_a = wk_a wk, slot_d = wk_d wk, slot_c = wk_c wk\<rparr>
                 | Some s \<Rightarrow> \<lparr>slot_a = slot_a s + wk_a wk, slot_d = slot_d s + wk_d wk,
                               slot_c = slot_c s + wk_c wk\<rparr>)
      else map_of m k)"
  by (auto simp: mergeWeek_def Let_def map_of_addToSlot map_add_def split: option.splits)

lemma collectWeeks_cong:
  "map_of m = map_of m' \<Longrightarrow> collectWeeks m ks tot = collectWeeks m' ks tot"
  by (induction m ks tot rule: collectWeeks.induct) (auto split: option.splits sum.splits)

lemma collectWeeks_totals:
  "collectWeeks m ks (ta, td, tc) = Inr (ws, (ta', td', tc')) \<Longrightarrow>
     ta' = ta + sum_list (map additions ws) \<and>
     td' = td + sum_list (map deletions ws) \<and>
     tc' = tc + sum_list (map commits ws)"
  by (induction ks arbitrary: ta td tc ws)
     (fastforce split: option.splits sum.splits)+

lemma collectWeeks_weeks:
  "collectWeeks m ks tot = Inr (ws, tot') \<Longrightarrow> map week ws = ks"
  by (induction m ks tot arbitrary: ws tot' rule: collectWeeks.induct)
     (auto split: option.splits sum.splits)

lemma collectWeeks_slots:
  "collectWeeks m ks tot = Inr (ws, tot') \<Longrightarrow> x \<in> set ws \<Longrightarrow>
     \<exists>s. map_of m (week x) = Some s \<and> additions x = slot_a s \<and> deletions x = slot_d s
          \<and> commits x = slot_c s"
  by (induction m ks tot arbitrary: ws tot' rule: collectWeeks.induct)
     (auto split: option.splits sum.splits)

lemma collectWeeks_total:
  "set ks \<subseteq> fst ` set m \<Longrightarrow> \<exists>r. collectWeeks m ks (ta, td, tc) = Inr r"
proof (induction ks arbitrary: ta td tc)
  case Nil
  then show ?case by simp
next
  case (Cons k ks)
  from Cons.prems obtain s where s: "map_of m k = Some s"
    by (cases "map_of m k") (auto simp: map_of_eq_None_iff)
  from Cons.prems have "set ks \<subseteq> fst ` set m" by simp
  from Cons.IH[OF this, of "ta + slot_a s" "td + slot_d s" "tc + slot_c s"] s
  show ?case by auto
qed

lemma mset_Object_keys: "mset (Object_keys m) = mset (map fst m)"
  by (simp add: Object_keys_def Let_def)

lemma sort_Object_keys: "sort (Object_keys m) = sort (map fst m)"
  by (rule properties_for_sort) (simp_all add: mset_Object_keys)

lemma buildLocData_total: "\<exists>ld. buildLocData m = Inr ld"
proof -
  have "set (sort (Object_keys m)) \<subseteq> fst ` set m"
    by (simp add: sort_Object_keys)
  from collectWeeks_total[OF this, of 0 0 0]
  show ?thesis by (auto simp: buildLocData_def)
qed

lemma buildLocData_totals:
  assumes "buildLocData m = Inr ld"
  shows "totalAdditions ld = sum_list (map additions (weeklyData ld))"
    and "totalDeletions ld = sum_list (map deletions (weeklyData ld))"
    and "totalCommits ld = sum_list (map commits (weeklyData ld))"
    and "netLines ld = totalAdditions ld - totalDeletions ld"
  using assms collectWeeks_totals[of m "sort (Object_keys m)" 0 0 0]
  by (auto simp: buildLocData_def split: sum.splits prod.splits)

lemma buildLocData_cong:
  assumes "distinct (map fst m)" "distinct (map fst m')" "map_of m = map_of m'"
  shows "buildLocData m = buildLocData m'"
proof -
  have "set (map fst m) = set (map fst m')"
    using assms(3) by (metis dom_map_of_conv_image_fst set_map)
  with set_eq_iff_mset_eq_distinct[OF assms(1,2)]
  have "mset (map fst m) = mset (map fst m')" by blast
  then have "sort (map fst m) = sort (map fst m')"
    by (metis properties_for_sort sorted_sort mset_sort)
  with collectWeeks_cong[OF assms(3)] show ?thesis
    by (simp add: buildLocData_def sort_Object_keys)
qed

lemma worldWeeksI:
  "statsCall W r i = Inr res \<Longrightarrow> data res = Contributors cs \<Longrightarrow> c \<in> set cs \<Longrightarrow>
   weeks c = Some wks \<Longrightarrow> wk \<in> set wks \<Longrightarrow> wk \<in> worldWeeks W"
  unfolding worldWeeks_def by blast

lemma resultWeeks_simps:
  "resultWeeks (Rejected e) = []"
  "resultWeeks (Fulfilled None) = []"
  "resultWeeks (Fulfilled (Some c)) = (case weeks c of Some wks \<Rightarrow> wks | None \<Rightarrow> [])"
  by (simp_all add: resultWeeks_def)

lemma brokenResult_simps:
  "brokenResult (Rejected e) = False"
  "brokenResult (Fulfilled None) = False"
  "brokenResult (Fulfilled (Some c)) = (weeks c = None)"
  by (simp_all add: brokenResult_def)

lemma findContributor_mem: "findContributor u cs = Inr (Some c) \<Longrightarrow> c \<in> set cs"
  by (induction cs) (auto split: author.splits if_splits)

lemma tryRepo_weeks:
  assumes "fst (tryRepo W u r m) = Inr m'"
  shows "\<exists>wks. set wks \<subseteq> worldWeeks W \<and> m' = mergeWeeks wks m"
proof -
  have none: "\<exists>wks. set wks \<subseteq> worldWeeks W \<and> m = mergeWeeks wks m"
    by (rule exI[of _ "[]"]) simp
  have some: "\<exists>wks'. set wks' \<subseteq> worldWeeks W \<and> mergeWeeks wks m = mergeWeeks wks' m"
    if "statsCall W r i = Inr res" "data res = Contributors cs"
       "findContributor u cs = Inr (Some c)" "weeks c = Some wks" for i res cs c wks
    using that findContributor_mem[OF that(3)]
    by (intro exI[of _ wks]) (auto intro: worldWeeksI)
  show ?thesis
    using assms none some[of 0] some[of 1]
    by (auto simp: tryRepo_def Let_def
             split: sum.splits if_splits payload.splits option.splits prod.splits)
qed

lemma repoLoop_weeks:
  "\<exists>wks. set wks \<subseteq> worldWeeks W \<and> fst (repoLoop W u rs m) = mergeWeeks wks m"
proof (induction rs arbitrary: m)
  case Nil
  show ?case by (rule exI[of _ "[]"]) simp
next
  case (Cons r rs)
  define m' where "m' = (case fst (tryRepo W u r m) of Inl e \<Rightarrow> m | Inr m1 \<Rightarrow> m1)"
  have "\<exists>wks. set wks \<subseteq> worldWeeks W \<and> m' = mergeWeeks wks m"
  proof (cases "fst (tryRepo W u r m)")
    case (Inl e)
    then have "m' = mergeWeeks [] m" by (simp add: m'_def)
    then show ?thesis by (intro exI[of _ "[]"]) simp
  next
    case (Inr m1)
    with tryRepo_weeks[OF Inr] show ?thesis by (simp add: m'_def)
  qed
  then obtain w1 where w1: "set w1 \<subseteq> worldWeeks W" "m' = mergeWeeks w1 m" by blast
  from Cons.IH[of m'] obtain w2 where
    w2: "set w2 \<subseteq> worldWeeks W" "fst (repoLoop W u rs m') = mergeWeeks w2 m'" by blast
  have "fst (repoLoop W u (r # rs) m) = fst (repoLoop W u rs m')"
    by (simp add: m'_def split: prod.splits)
  with w1 w2 have "fst (repoLoop W u (r # rs) m) = mergeWeeks (w1 @ w2) m"
    by (simp add: mergeWeeks_append)
  moreover from w1 w2 have "set (w1 @ w2) \<subseteq> worldWeeks W" by simp
  ultimately show ?case by blast
qed

lemma fetchLoc_weeks:
  assumes "fst (fetchLoc W username include_orgs) = Inr ld"
  shows "\<exists>wks. set wks \<subseteq> worldWeeks W \<and> buildLocData (mergeWeeks wks []) = Inr ld"
proof -
  from assms obtain u where u: "username = Some u" "u \<noteq> []"
    by (auto simp: fetchLoc_def split: option.splits if_splits)
  from assms u obtain repos tr1 where c: "collectRepos W u include_orgs = (Inr repos, tr1)"
    by (cases "collectRepos W u include_orgs")
       (auto simp: fetchLoc_def split: sum.splits)
  from repoLoop_weeks[of W u repos "[]"] assms u c
  show ?thesis by (auto simp: fetchLoc_def split: prod.splits)
qed

lemma mergeResults_eq:
  "mergeResults rs m =
     (if \<exists>r \<in> set rs. brokenResult r then Inl TypeError
      else Inr (mergeWeeks (concat (map resultWeeks rs)) m))"
  by (induction rs m rule: mergeResults.induct)
     (auto simp: brokenResult_simps resultWeeks_simps mergeWeeks_append split: option.splits)

lemma fetchOneRepo_weeks:
  assumes "fst (fetchOneRepo W u r) = Fulfilled (Some c)" "weeks c = Some wks"
  shows "set wks \<subseteq> worldWeeks W"
proof -
  have "set wks \<subseteq> worldWeeks W"
    if "statsCall W r i = Inr res" "data res = Contributors cs"
       "findContributor u cs = Inr (Some c)" for i res cs
    using that findContributor_mem[OF that(3)] assms(2) by (auto intro: worldWeeksI)
  from this[of 0] this[of 1] assms(1) show ?thesis
    by (auto simp: fetchOneRepo_def Let_def
             split: sum.splits if_splits payload.splits option.splits prod.splits)
qed

lemma fetchLoc_part000_weeks:
  assumes "fst (fetchLoc_part000 W username include_orgs) = Inr ld"
  shows "\<exists>wks. set wks \<subseteq> worldWeeks W \<and> buildLocData (mergeWeeks wks []) = Inr ld"
proof -
  from assms obtain u where u: "username = Some u" "u \<noteq> []"
    by (auto simp: fetchLoc_part000_def split: option.splits if_splits)
  from assms u obtain repos tr1 where c: "collectRepos W u include_orgs = (Inr repos, tr1)"
    by (cases "collectRepos W u include_orgs")
       (auto simp: fetchLoc_part000_def split: sum.splits)
  define rs where "rs = map fst (map (fetchOneRepo W u) repos)"
  from assms u c have agg: "aggregate rs = Inr ld"
    by (auto simp: fetchLoc_part000_def rs_def Let_def)
  then have "buildLocData (mergeWeeks (concat (map resultWeeks rs)) []) = Inr ld"
    by (auto simp: aggregate_def mergeResults_eq split: if_splits)
  moreover have "set (concat (map resultWeeks rs)) \<subseteq> worldWeeks W"
  proof -
    have "set (resultWeeks (fst (fetchOneRepo W u r))) \<subseteq> worldWeeks W" for r
    proof (cases "fst (fetchOneRepo W u r)")
      case (Fulfilled x)
      show ?thesis
      proof (cases x)
        case None
        with Fulfilled show ?thesis by (simp add: resultWeeks_simps)
      next
        case (Some c)
        with Fulfilled fetchOneRepo_weeks[of W u r c] show ?thesis
          by (cases "weeks c") (simp_all add: resultWeeks_simps)
      qed
    next
      case (Rejected e)
      then show ?thesis by (simp add: resultWeeks_simps)
    qed
    then show ?thesis by (auto simp: rs_def)
  qed
  ultimately show ?thesis by blast
qed

lemma goodSlot_mergeWeek:
  assumes "\<forall>k s. map_of m k = Some s \<longrightarrow> goodSlot s"
    and "0 \<le> wk_a wk \<and> 0 \<le> wk_d wk \<and> 0 \<le> wk_c wk"
  shows "\<forall>k s. map_of (mergeWeek wk m) k = Some s \<longrightarrow> goodSlot s"
proof (intro allI impI)
  fix k s assume s: "map_of (mergeWeek wk m) k = Some s"
  show "goodSlot s"
  proof (cases "wk_w wk = k \<and> \<not> (wk_a wk = 0 \<and> wk_d wk = 0 \<and> wk_c wk = 0)")
    case False
    then have "map_of (mergeWeek wk m) k = map_of m k"
      by (subst map_of_mergeWeek) (simp only: if_False)
    with s assms(1) show ?thesis by simp
  next
    case True
    show ?thesis
    proof (cases "map_of m k")
      case None
      with True s assms(2) show ?thesis by (auto simp: map_of_mergeWeek goodSlot_def)
    next
      case (Some t)
      with assms(1) have "goodSlot t" by blast
      with True s Some assms(2) show ?thesis
        by (auto simp: map_of_mergeWeek goodSlot_def)
    qed
  qed
qed

lemma goodSlot_mergeWeeks:
  "\<forall>k s. map_of m k = Some s \<longrightarrow> goodSlot s \<Longrightarrow>
   \<forall>wk \<in> set wks. 0 \<le> wk_a wk \<and> 0 \<le> wk_d wk \<and> 0 \<le> wk_c wk \<Longrightarrow>
   \<forall>k s. map_of (mergeWeeks wks m) k = Some s \<longrightarrow> goodSlot s"
proof (induction wks arbitrary: m)
  case Nil
  then show ?case by simp
next
  case (Cons wk wks)
  from Cons.prems have "\<forall>k s. map_of (mergeWeek wk m) k = Some s \<longrightarrow> goodSlot s"
    by (intro goodSlot_mergeWeek) simp_all
  with Cons.prems Cons.IH[of "mergeWeek wk m"] show ?case by simp
qed

lemma buildLocData_strict:
  assumes "distinct (map fst m)" "buildLocData m = Inr ld"
  shows "sorted_wrt (<) (map week (weeklyData ld))"
proof -
  from assms(2) obtain tot where
    "collectWeeks m (sort (Object_keys m)) (0, 0, 0) = Inr (weeklyData ld, tot)"
    by (auto simp: buildLocData_def split: sum.splits prod.splits)
  then have "map week (weeklyData ld) = sort (map fst m)"
    by (simp add: collectWeeks_weeks sort_Object_keys)
  with assms(1) show ?thesis by (simp add: strict_sorted_iff)
qed

lemma buildLocData_nonzero:
  assumes "\<forall>k s. map_of m k = Some s \<longrightarrow> goodSlot s" "buildLocData m = Inr ld"
    "x \<in> set (weeklyData ld)"
  shows "\<not> (additions x = 0 \<and> deletions x = 0 \<and> commits x = 0)"
proof -
  from assms(2) obtain tot where
    "collectWeeks m (sort (Object_keys m)) (0, 0, 0) = Inr (weeklyData ld, tot)"
    by (auto simp: buildLocData_def split: sum.splits prod.splits)
  from collectWeeks_slots[OF this assms(3)] assms(1) show ?thesis
    by (auto simp: goodSlot_def)
qed

lemma weekSlot_add_mset:
  "weekSlot (add_mset wk M) k =
     (if wk_w wk = k \<and> \<not> (wk_a wk = 0 \<and> wk_d wk = 0 \<and> wk_c wk = 0)
      then Some (case weekSlot M k of
                   None \<Rightarrow> \<lparr>slot_a = wk_a wk, slot_d = wk_d wk, slot_c = wk_c wk\<rparr>
                 | Some s \<Rightarrow> \<lparr>slot_a = slot_a s + wk_a wk, slot_d = slot_d s + wk_d wk,
                               slot_c = slot_c s + wk_c wk\<rparr>)
      else weekSlot M k)"
proof -
  define C where
    "C = filter_mset (\<lambda>x. wk_w x = k \<and> \<not> (wk_a x = 0 \<and> wk_d x = 0 \<and> wk_c x = 0)) M"
  show ?thesis
  proof (cases "wk_w wk = k \<and> \<not> (wk_a wk = 0 \<and> wk_d wk = 0 \<and> wk_c wk = 0)")
    case True
    then have "filter_mset (\<lambda>x. wk_w x = k \<and> \<not> (wk_a x = 0 \<and> wk_d x = 0 \<and> wk_c x = 0))
                 (add_mset wk M) = add_mset wk C"
      by (simp add: C_def)
    then have "weekSlot (add_mset wk M) k =
        Some \<lparr>slot_a = wk_a wk + sum_mset (image_mset wk_a C),
              slot_d = wk_d wk + sum_mset (image_mset wk_d C),
              slot_c = wk_c wk + sum_mset (image_mset wk_c C)\<rparr>"
      unfolding weekSlot_def Let_def by simp
    moreover have "weekSlot M k =
        (if C = {#} then None
         else Some \<lparr>slot_a = sum_mset (image_mset wk_a C), slot_d = sum_mset (image_mset wk_d C),
                    slot_c = sum_mset (image_mset wk_c C)\<rparr>)"
      unfolding weekSlot_def Let_def C_def by simp
    ultimately show ?thesis using True
      by (cases "C = {#}") (simp_all add: add.commute)
  next
    case False
    then have "filter_mset (\<lambda>x. wk_w x = k \<and> \<not> (wk_a x = 0 \<and> wk_d x = 0 \<and> wk_c x = 0))
                 (add_mset wk M) = C"
      by (auto simp: C_def)
    then have "weekSlot (add_mset wk M) k = weekSlot M k"
      unfolding weekSlot_def Let_def C_def by simp
    with False show ?thesis by (simp only: if_False)
  qed
qed

lemma map_of_mergeWeeks_Nil: "map_of (mergeWeeks wks []) k = weekSlot (mset wks) k"
proof (induction wks rule: rev_induct)
  case Nil
  show ?case by (simp add: weekSlot_def)
next
  case (snoc wk wks)
  have "mergeWeeks (wks @ [wk]) [] = mergeWeek wk (mergeWeeks wks [])"
    by (simp add: mergeWeeks_append)
  then have "map_of (mergeWeeks (wks @ [wk]) []) k = map_of (mergeWeek wk (mergeWeeks wks [])) k"
    by simp
  also have "\<dots> = weekSlot (add_mset wk (mset wks)) k"
    unfolding map_of_mergeWeek weekSlot_add_mset snoc.IH ..
  finally show ?case by simp
qed

lemma mset_concat_map_cong:
  "mset xs = mset ys \<Longrightarrow> mset (concat (map f xs)) = mset (concat (map f ys))"
proof -
  assume "mset xs = mset ys"
  then have "image_mset (\<lambda>x. mset (f x)) (mset xs) = image_mset (\<lambda>x. mset (f x)) (mset ys)"
    by simp
  then have "sum_mset (mset (map (\<lambda>x. mset (f x)) xs)) = sum_mset (mset (map (\<lambda>x. mset (f x)) ys))"
    by simp
  then show ?thesis
    by (simp add: mset_concat sum_mset_sum_list comp_def del: mset_map)
qed

lemma buildLocData_mergeWeeks_perm:
  assumes "mset xs = mset ys"
  shows "buildLocData (mergeWeeks xs []) = buildLocData (mergeWeeks ys [])"
proof (rule buildLocData_cong)
  show "distinct (map fst (mergeWeeks xs []))" by (rule distinct_mergeWeeks) simp
  show "distinct (map fst (mergeWeeks ys []))" by (rule distinct_mergeWeeks) simp
  show "map_of (mergeWeeks xs []) = map_of (mergeWeeks ys [])"
    by (rule ext) (simp add: map_of_mergeWeeks_Nil assms)
qed

lemma tryRepo_fetchOneRepo:
  "(case fst (tryRepo W u r m) of Inl e \<Rightarrow> m | Inr m1 \<Rightarrow> m1) =
     mergeWeeks (resultWeeks (fst (fetchOneRepo W u r))) m"
  by (auto simp: tryRepo_def fetchOneRepo_def Let_def resultWeeks_simps
           split: sum.splits if_splits payload.splits option.splits prod.splits)

lemma repoLoop_eq:
  "fst (repoLoop W u rs m) =
     mergeWeeks (concat (map (\<lambda>r. resultWeeks (fst (fetchOneRepo W u r))) rs)) m"
proof (induction rs arbitrary: m)
  case Nil
  show ?case by simp
next
  case (Cons r rs)
  have "fst (repoLoop W u (r # rs) m) =
        fst (repoLoop W u rs (case fst (tryRepo W u r m) of Inl e \<Rightarrow> m | Inr m1 \<Rightarrow> m1))"
    by (simp split: prod.splits)
  then show ?case
    by (simp add: Cons.IH tryRepo_fetchOneRepo mergeWeeks_append)
qed

lemma collectRepos_trace:
  "\<exists>tr. snd (collectRepos W u include_orgs) = UserReposRequest u # tr"
  by (simp add: collectRepos_def userRepos_def split: prod.splits sum.splits)

lemma collectRepos_error:
  "fst (collectRepos W u include_orgs) = Inl e \<longleftrightarrow>
     e = TypeError \<and> (\<exists>xs. include_orgs = Repeated xs)"
  by (cases include_orgs)
     (auto simp: collectRepos_def parseOrgs_def split: prod.splits sum.splits)

lemma collectRepos_error_trace:
  "collectRepos W u (Repeated xs) = (Inl TypeError, [UserReposRequest u])"
  by (simp add: collectRepos_def parseOrgs_def userRepos_def)

lemma fetchOneRepo_source:
  assumes "fst (fetchOneRepo W u r) = Fulfilled (Some c)"
  shows "\<exists>i res cs. statsCall W r i = Inr res \<and> data res = Contributors cs \<and> c \<in> set cs"
proof -
  have "\<exists>i res cs. statsCall W r i = Inr res \<and> data res = Contributors cs \<and> c \<in> set cs"
    if "statsCall W r i = Inr res" "data res = Contributors cs"
       "findContributor u cs = Inr (Some c)" for i res cs
    using that findContributor_mem[OF that(3)] by blast
  from this[of 0] this[of 1] assms show ?thesis
    by (auto simp: fetchOneRepo_def Let_def
             split: sum.splits if_splits payload.splits option.splits prod.splits)
qed

lemma fetchOneRepo_not_broken:
  assumes "weeksPresent W"
  shows "\<not> brokenResult (fst (fetchOneRepo W u r))"
proof (cases "fst (fetchOneRepo W u r)")
  case (Fulfilled x)
  show ?thesis
  proof (cases x)
    case None
    with Fulfilled show ?thesis by (simp add: brokenResult_simps)
  next
    case (Some c)
    with Fulfilled fetchOneRepo_source[of W u r c] assms show ?thesis
      unfolding weeksPresent_def by (simp add: brokenResult_simps) blast
  qed
next
  case (Rejected e)
  then show ?thesis by (simp add: brokenResult_simps)
qed

lemma aggregate_total:
  assumes "\<forall>r \<in> set rs. \<not> brokenResult r"
  shows "\<exists>ld. aggregate rs = Inr ld"
  using assms buildLocData_total[of "mergeWeeks (concat (map resultWeeks rs)) []"]
  by (simp add: aggregate_def mergeResults_eq)

lemma aggregate_weeks_missing:
  "weeks c = None \<Longrightarrow> aggregate (rs @ Fulfilled (Some c) # rs') = Inl TypeError"
  by (simp add: aggregate_def mergeResults_eq brokenResult_simps)

text \<open>What holds of claim C3: an absent or empty user name fails with
  \<open>MissingParamError\<close> before anything is requested, in both versions; the
  sequential version fails otherwise only for an \<^verbatim>\<open>include_orgs\<close> that is an array,
  whatever the provider does; the parallel version fails otherwise only for such an
  \<^verbatim>\<open>include_orgs\<close> or for a provider with a contributor entry without
  \<^verbatim>\<open>weeks\<close>.\<close>

lemma fetchLoc_missing_username:
  assumes "username = None \<or> username = Some []"
  shows "fetchLoc W username include_orgs = (Inl MissingParamError, [])"
    and "fetchLoc_part000 W username include_orgs = (Inl MissingParamError, [], [])"
  using assms by (auto simp: fetchLoc_def fetchLoc_part000_def)

lemma fetchLoc_errors:
  "fst (fetchLoc W username include_orgs) = Inl e \<longleftrightarrow>
     (e = MissingParamError \<and> (username = None \<or> username = Some [])) \<or>
     (e = TypeError \<and> username \<noteq> None \<and> username \<noteq> Some [] \<and>
        (\<exists>xs. include_orgs = Repeated xs))"
proof (cases "username = None \<or> username = Some []")
  case True
  with fetchLoc_missing_username(1)[OF True, of W include_orgs] show ?thesis by auto
next
  case False
  then obtain u where u: "username = Some u" "u \<noteq> []" by auto
  obtain r tr1 where c: "collectRepos W u include_orgs = (r, tr1)"
    by (cases "collectRepos W u include_orgs")
  show ?thesis
  proof (cases r)
    case (Inl e')
    with c collectRepos_error[of W u include_orgs e'] u show ?thesis
      by (auto simp: fetchLoc_def)
  next
    case (Inr repos)
    obtain m tr2 where l: "repoLoop W u repos [] = (m, tr2)"
      by (cases "repoLoop W u repos []")
    obtain ld where "buildLocData m = Inr ld"
      using buildLocData_total by blast
    with Inr c l u collectRepos_error[of W u include_orgs TypeError] show ?thesis
      by (auto simp: fetchLoc_def)
  qed
qed

lemma fetchLoc_first_request:
  assumes "username = Some u" "u \<noteq> []"
  shows "\<exists>tr. snd (fetchLoc W username include_orgs) = UserReposRequest u # tr"
proof -
  obtain r tr1 where c: "collectRepos W u include_orgs = (r, tr1)"
    by (cases "collectRepos W u include_orgs")
  with collectRepos_trace[of W u include_orgs] obtain tr where "tr1 = UserReposRequest u # tr"
    by auto
  with assms c show ?thesis
    by (cases r) (auto simp: fetchLoc_def split: prod.splits)
qed

lemma fetchLoc_part000_errors:
  assumes "fst (fetchLoc_part000 W username include_orgs) = Inl e"
  shows "(e = MissingParamError \<and> (username = None \<or> username = Some [])) \<or>
         (e = TypeError \<and> ((\<exists>xs. include_orgs = Repeated xs) \<or> \<not> weeksPresent W))"
proof (cases "username = None \<or> username = Some []")
  case True
  with fetchLoc_missing_username(2)[OF True, of W include_orgs] assms show ?thesis by auto
next
  case False
  then obtain u where u: "username = Some u" "u \<noteq> []" by auto
  obtain r tr1 where c: "collectRepos W u include_orgs = (r, tr1)"
    by (cases "collectRepos W u include_orgs")
  show ?thesis
  proof (cases r)
    case (Inl e')
    with c collectRepos_error[of W u include_orgs e'] u assms show ?thesis
      by (auto simp: fetchLoc_part000_def)
  next
    case (Inr repos)
    with c u assms
    have a: "aggregate (map fst (map (fetchOneRepo W u) repos)) = Inl e"
      by (simp add: fetchLoc_part000_def Let_def)
    then have "e = TypeError"
      using buildLocData_total[of "mergeWeeks (concat (map resultWeeks
               (map fst (map (fetchOneRepo W u) repos)))) []"]
      by (auto simp: aggregate_def mergeResults_eq split: if_splits)
    moreover have "\<not> weeksPresent W"
    proof
      assume "weeksPresent W"
      then have "\<forall>r \<in> set (map fst (map (fetchOneRepo W u) repos)). \<not> brokenResult r"
        using fetchOneRepo_not_broken by simp
      from aggregate_total[OF this] a show False by simp
    qed
    ultimately show ?thesis by blast
  qed
qed

section \<open>Properties of the layout engine\<close>

lemma length_cumulativePoints: "length (cumulativePoints acc xs) = length xs"
  by (induction xs arbitrary: acc) (simp_all add: Let_def)

lemma windowPoints_nonempty: "allPoints \<noteq> [] \<Longrightarrow> windowPoints months now allPoints \<noteq> []"
  by (auto simp: windowPoints_def Let_def split: option.splits)

lemma cumulativeLayout_empty:
  "weeklyData dat = [] \<Longrightarrow>
   cumulativeLayout scale yTicks dotCount bg tx title months now dat = Inr (NoData (noDataSvg bg tx))"
  by (simp add: cumulativeLayout_def)

lemma cumulativeLayout_chart:
  assumes "weeklyData dat \<noteq> []"
  shows "\<exists>ch. cumulativeLayout scale yTicks dotCount bg tx title months now dat = Inr (Chart ch) \<and>
           cc_points ch = windowPoints months now (cumulativePoints 0 (weeklyData dat)) \<and>
           cc_timeRange ch = orOne (p_week (last (cc_points ch)) - p_week (hd (cc_points ch))) \<and>
           cc_valRange ch = orOne (Math_max (map p_value (cc_points ch)) 0
                                    - Math_min (map p_value (cc_points ch)) 0) \<and>
           cc_pixelPts ch =
             map (\<lambda>p. (of_int padding_left
                         + scale (of_int (p_week p - p_week (hd (cc_points ch)))
                                    / of_int (cc_timeRange ch)) * of_int chartW,
                       of_int padding_top + of_int chartH
                         - ((of_int (p_value p) - of_int (Math_min (map p_value (cc_points ch)) 0))
                              / of_int (cc_valRange ch)) * of_int chartH))
                 (cc_points ch) \<and>
           cc_stats ch = [''+'' @ formatNum (totalAdditions dat),
                          ''-'' @ formatNum (totalDeletions dat),
                          formatNum (netLines dat) @ '' net'']"
proof -
  define pts where "pts = windowPoints months now (cumulativePoints 0 (weeklyData dat))"
  from assms have "cumulativePoints 0 (weeklyData dat) \<noteq> []"
    using length_cumulativePoints[of 0 "weeklyData dat"] by auto
  then have ne: "pts \<noteq> []" unfolding pts_def by (rule windowPoints_nonempty)
  then obtain p ps where p: "pts = p # ps" by (cases pts) auto
  have f: "firstPoint pts = Inr (hd pts)" using p by (simp add: firstPoint_def)
  have l: "lastPoint pts = Inr (last pts)" using ne by (simp add: lastPoint_def)
  show ?thesis
    using assms f l unfolding cumulativeLayout_def pts_def[symmetric] Let_def
    by simp
qed

lemma cumulativeLayout_total:
  "\<exists>r. cumulativeLayout scale yTicks dotCount bg tx title months now dat = Inr r"
  using cumulativeLayout_empty[of dat scale yTicks dotCount bg tx title months now]
        cumulativeLayout_chart[of dat scale yTicks dotCount bg tx title months now]
  by (cases "weeklyData dat = []") auto

lemma Math_max_eq: "Math_max xs b = Max (set (b # xs))"
proof (induction xs)
  case Nil
  show ?case by (simp add: Math_max_def)
next
  case (Cons x xs)
  then have "Math_max (x # xs) b = max x (Max (set (b # xs)))" by (simp add: Math_max_def)
  also have "\<dots> = Max (insert x (set (b # xs)))" by (subst Max_insert) auto
  finally show ?case by (simp add: insert_commute)
qed

lemma Math_min_eq: "Math_min xs b = Min (set (b # xs))"
proof (induction xs)
  case Nil
  show ?case by (simp add: Math_min_def)
next
  case (Cons x xs)
  then have "Math_min (x # xs) b = min x (Min (set (b # xs)))" by (simp add: Math_min_def)
  also have "\<dots> = Min (insert x (set (b # xs)))" by (subst Min_insert) auto
  finally show ?case by (simp add: insert_commute)
qed

lemma bucketWeek_nonempty: "bucketWeek cal x mm \<noteq> []"
  by (cases mm) (auto simp: bucketWeek_def Let_def)

lemma bucketWeeks_nonempty: "mm \<noteq> [] \<or> xs \<noteq> [] \<Longrightarrow> bucketWeeks cal xs mm \<noteq> []"
  by (induction xs arbitrary: mm) (auto simp: bucketWeek_nonempty)

lemma sliceLast_nonempty: "0 < n \<Longrightarrow> xs \<noteq> [] \<Longrightarrow> sliceLast n xs \<noteq> []"
  by (cases xs) (auto simp: sliceLast_def)

lemma visibleMonths_nonempty: "wd \<noteq> [] \<Longrightarrow> visibleMonths cal months wd \<noteq> []"
proof -
  assume "wd \<noteq> []"
  then have "bucketWeeks cal wd [] \<noteq> []" by (simp add: bucketWeeks_nonempty)
  then have "length (sortMonths (map snd (bucketWeeks cal wd []))) \<noteq> 0"
    by (simp add: sortMonths_def)
  then have "sortMonths (map snd (bucketWeeks cal wd [])) \<noteq> []"
    by (simp only: length_0_conv) simp
  then show ?thesis
    by (auto simp: visibleMonths_def Let_def sliceLast_nonempty split: option.splits)
qed

lemma renderLocChart_monthly_empty:
  "weeklyData dat = [] \<Longrightarrow>
   renderLocChart_monthly cal cc title months dat =
     Inr (NoData (noDataSvg (bg_color_of cc) (text_color_of cc)))"
  by (simp add: renderLocChart_monthly_def)

lemma renderLocChart_monthly_chart:
  assumes "weeklyData dat \<noteq> []"
  shows "\<exists>ch. renderLocChart_monthly cal cc title months dat = Inr (Chart ch) \<and>
           bc_months ch = visibleMonths cal months (weeklyData dat) \<and>
           bc_maxAdd ch = Math_max (map me_additions (bc_months ch)) 1 \<and>
           bc_maxDel ch = Math_max (map me_deletions (bc_months ch)) 1 \<and>
           bc_addRatio ch = of_int (bc_maxAdd ch) / of_int (bc_maxAdd ch + bc_maxDel ch) \<and>
           bc_baselineY ch = of_int padding_top + of_int chartH * bc_addRatio ch \<and>
           bc_stats ch = [''+'' @ formatNum_monthly (totalAdditions dat),
                          ''-'' @ formatNum_monthly (totalDeletions dat),
                          formatNum_monthly (netLines dat) @ '' net'']"
  using assms visibleMonths_nonempty[OF assms, of cal months]
  unfolding renderLocChart_monthly_def Let_def by simp

lemma renderLocChart_monthly_total:
  "\<exists>r. renderLocChart_monthly cal cc title months dat = Inr r"
  using renderLocChart_monthly_empty[of dat cal cc title months]
        renderLocChart_monthly_chart[of dat cal cc title months]
  by (cases "weeklyData dat = []") auto

lemma Math_max_ge: "b \<le> Math_max xs b"
  by (induction xs) (auto simp: Math_max_def)

lemma Math_max_one: "xs \<noteq> [] \<Longrightarrow> Math_max xs 1 = max 1 (Max (set xs))"
  by (cases xs) (simp_all add: Math_max_eq max.commute)

lemma noDataSvg_text:
  \<open>noDataSvg bg tx =
     ''<svg width="850" height="300" xmlns="http://www.w3.org/2000/svg">'' @ [CHR 0x0A]
     @ ''      <rect width="100%" height="100%" fill="#'' @ bg @ ''" />'' @ [CHR 0x0A]
     @ ''      <text x="50%" y="50%" fill="#'' @ tx
       @ ''" text-anchor="middle" font-family="'' @ [CHR 0x27] @ ''Segoe UI'' @ [CHR 0x27]
       @ '', Ubuntu, Sans-Serif" font-size="14">No data available</text>'' @ [CHR 0x0A]
     @ ''    </svg>''\<close>
proof -
  have "toString width = ''850''" "toString height = ''300''"
    by code_simp+
  then show ?thesis by (simp add: noDataSvg_def)
qed

lemma cumulativePoints_nth:
  "i < length xs \<Longrightarrow>
   cumulativePoints acc xs ! i =
     \<lparr>p_week = week (xs ! i),
      p_value = acc + (\<Sum>x\<leftarrow>take (Suc i) xs. additions x - deletions x),
      p_additions = additions (xs ! i), p_deletions = deletions (xs ! i)\<rparr>"
proof (induction xs arbitrary: acc i)
  case Nil
  then show ?case by simp
next
  case (Cons x xs)
  show ?case
  proof (cases i)
    case 0
    then show ?thesis by (simp add: Let_def)
  next
    case (Suc j)
    with Cons.prems have "j < length xs" by simp
    from Cons.IH[OF this, of "acc + (additions x - deletions x)"] Suc
    show ?thesis by (simp add: Let_def)
  qed
qed

lemma cumulativePoints_mem:
  assumes "p \<in> set (cumulativePoints 0 xs)"
  shows "\<exists>i<length xs. p_week p = week (xs ! i) \<and>
           p_value p = (\<Sum>x\<leftarrow>take (Suc i) xs. additions x - deletions x)"
proof -
  from assms obtain i where i: "i < length (cumulativePoints 0 xs)" "cumulativePoints 0 xs ! i = p"
    by (auto simp: in_set_conv_nth)
  then have "i < length xs" by (simp add: length_cumulativePoints)
  with cumulativePoints_nth[OF this, of 0] i(2) show ?thesis by auto
qed

lemma set_windowPoints: "set (windowPoints months now allPoints) \<subseteq> set allPoints"
  by (auto simp: windowPoints_def Let_def split: option.splits)

lemma windowPoints_Some:
  "0 < m \<Longrightarrow>
   windowPoints (Some m) now allPoints =
     (let inWindow = filter (\<lambda>p. of_int now / 1000 - of_int m * 30 * 86400 \<le> (of_int (p_week p) :: real))
                        allPoints
      in if inWindow = [] then allPoints else inWindow)"
  by (simp add: windowPoints_def Let_def)

lemma netChange_cumulativePoints:
  "map netChange (cumulativePoints acc xs) = map (\<lambda>x. additions x - deletions x) xs"
  by (induction xs arbitrary: acc) (simp_all add: Let_def netChange_def)

lemma cumulativePoints_runningNet:
  "map p_value (cumulativePoints 0 xs) = spec_runningNet (cumulativePoints 0 xs)"
proof (rule nth_equalityI)
  show "length (map p_value (cumulativePoints 0 xs)) = length (spec_runningNet (cumulativePoints 0 xs))"
    by (simp add: spec_runningNet_def)
next
  fix i assume "i < length (map p_value (cumulativePoints 0 xs))"
  then have i: "i < length xs" by (simp add: length_cumulativePoints)
  have "sum_list (map netChange (take (Suc i) (cumulativePoints 0 xs))) =
        (\<Sum>x\<leftarrow>take (Suc i) xs. additions x - deletions x)"
    using netChange_cumulativePoints[of 0 xs]
    by (metis take_map)
  with i cumulativePoints_nth[OF i, of 0]
  show "map p_value (cumulativePoints 0 xs) ! i = spec_runningNet (cumulativePoints 0 xs) ! i"
    by (simp add: spec_runningNet_def length_cumulativePoints)
qed

lemma windowPoints_full:
  "length (windowPoints months now allPoints) = length allPoints \<Longrightarrow>
   windowPoints months now allPoints = allPoints"
proof -
  assume l: "length (windowPoints months now allPoints) = length allPoints"
  have "filter P allPoints = allPoints" if "length (filter P allPoints) = length allPoints" for P
    using that by (metis filter_True length_filter_less less_irrefl)
  with l show ?thesis
    by (auto simp: windowPoints_def Let_def split: option.splits if_splits)
qed

lemma cumulativeLayout_values:
  assumes "cumulativeLayout scale yTicks dotCount bg tx title months now dat = Inr (Chart ch)"
  shows "(\<forall>p \<in> set (cc_points ch). \<exists>i<length (weeklyData dat).
            p_week p = week (weeklyData dat ! i) \<and>
            p_value p = (\<Sum>x\<leftarrow>take (Suc i) (weeklyData dat). additions x - deletions x)) \<and>
         (length (cc_points ch) = length (weeklyData dat) \<longrightarrow>
            map p_value (cc_points ch) = spec_runningNet (cc_points ch)) \<and>
         cc_pixelPts ch =
           map (\<lambda>p. (of_int padding_left
                       + scale (of_int (p_week p - p_week (hd (cc_points ch)))
                                  / of_int (cc_timeRange ch)) * of_int chartW,
                     of_int padding_top + of_int chartH
                       - ((of_int (p_value p) - of_int (Min (set (0 # map p_value (cc_points ch)))))
                            / of_int (cc_valRange ch)) * of_int chartH))
               (cc_points ch)"
proof -
  from assms have ne: "weeklyData dat \<noteq> []"
    by (auto simp: cumulativeLayout_def)
  from cumulativeLayout_chart[OF ne, of scale yTicks dotCount bg tx title months now] assms
  have c: "cc_points ch = windowPoints months now (cumulativePoints 0 (weeklyData dat))"
    and px: "cc_pixelPts ch =
             map (\<lambda>p. (of_int padding_left
                         + scale (of_int (p_week p - p_week (hd (cc_points ch)))
                                    / of_int (cc_timeRange ch)) * of_int chartW,
                       of_int padding_top + of_int chartH
                         - ((of_int (p_value p) - of_int (Math_min (map p_value (cc_points ch)) 0))
                              / of_int (cc_valRange ch)) * of_int chartH))
                 (cc_points ch)"
    by auto
  have 1: "\<forall>p \<in> set (cc_points ch). \<exists>i<length (weeklyData dat).
            p_week p = week (weeklyData dat ! i) \<and>
            p_value p = (\<Sum>x\<leftarrow>take (Suc i) (weeklyData dat). additions x - deletions x)"
  proof
    fix p assume "p \<in> set (cc_points ch)"
    with c set_windowPoints[of months now "cumulativePoints 0 (weeklyData dat)"]
    have "p \<in> set (cumulativePoints 0 (weeklyData dat))" by auto
    then show "\<exists>i<length (weeklyData dat).
            p_week p = week (weeklyData dat ! i) \<and>
            p_value p = (\<Sum>x\<leftarrow>take (Suc i) (weeklyData dat). additions x - deletions x)"
      by (rule cumulativePoints_mem)
  qed
  have 2: "map p_value (cc_points ch) = spec_runningNet (cc_points ch)"
    if "length (cc_points ch) = length (weeklyData dat)"
  proof -
    from that c have "cc_points ch = cumulativePoints 0 (weeklyData dat)"
      by (simp add: windowPoints_full length_cumulativePoints)
    then show ?thesis by (simp add: cumulativePoints_runningNet)
  qed
  from 1 2 px show ?thesis by (simp add: Math_min_eq del: Min_insert)
qed

lemma digitChar_mem: "k < 10 \<Longrightarrow> digitChar k \<in> set ''0123456789''"
  unfolding digitChar_def by (rule nth_mem) simp

lemma digits_chars: "set (digits k) \<subseteq> set ''0123456789''"
proof (induction k rule: digits.induct)
  case (1 n)
  show ?case
  proof (cases "n < 10")
    case True
    with digitChar_mem[of n] show ?thesis by (subst digits.simps) simp
  next
    case False
    have "digitChar (n mod 10) \<in> set ''0123456789''" by (rule digitChar_mem) simp
    with False "1.IH" show ?thesis by (subst digits.simps) simp
  qed
qed

lemma toString_chars: "set (toString n) \<subseteq> set ''-0123456789''"
proof -
  have s: "set ''-0123456789'' = insert CHR ''-'' (set ''0123456789'')"
    by (simp only: list.set(2))
  show ?thesis
  proof (cases "n < 0")
    case True
    then have "toString n = CHR ''-'' # digits (nat (- n))" by (simp add: toString_def)
    then have "set (toString n) = insert CHR ''-'' (set (digits (nat (- n))))"
      by (simp only: list.set(2))
    with digits_chars[of "nat (- n)"] show ?thesis
      unfolding s by (simp only: insert_mono)
  next
    case False
    then have "toString n = digits (nat n)" by (simp add: toString_def)
    with digits_chars[of "nat n"] show ?thesis
      unfolding s by (simp only: subset_insertI2)
  qed
qed

lemma formatNum_neg_example: "formatNum (- 1500000) = ''-1500000''"
  by (simp add: formatNum_def toString_def digitChar_def digits.simps)

lemma formatNum_monthly_neg_example: "formatNum_monthly (- 1500000) = ''-1.5M''"
  by (simp add: formatNum_monthly_def toFixed1_def toDouble_def roundHalfEven_def digitChar_def
                Let_def digits.simps log2floor.simps)

lemma cumulativeLayout_stats:
  assumes "cumulativeLayout scale yTicks dotCount bg tx title months now dat = Inr (Chart ch)"
  shows "cc_stats ch = [''+'' @ formatNum (totalAdditions dat), ''-'' @ formatNum (totalDeletions dat),
                        formatNum (netLines dat) @ '' net'']"
proof -
  from assms have ne: "weeklyData dat \<noteq> []"
    by (auto simp: cumulativeLayout_def)
  from cumulativeLayout_chart[OF ne, of scale yTicks dotCount bg tx title months now] assms
  show ?thesis by auto
qed

lemma renderLocChart_monthly_stats:
  assumes "renderLocChart_monthly cal cc title months dat = Inr (Chart ch)"
  shows "bc_stats ch = [''+'' @ formatNum_monthly (totalAdditions dat),
                        ''-'' @ formatNum_monthly (totalDeletions dat),
                        formatNum_monthly (netLines dat) @ '' net'']"
proof -
  from assms have ne: "weeklyData dat \<noteq> []"
    by (auto simp: renderLocChart_monthly_def)
  from renderLocChart_monthly_chart[OF ne, of cal cc title months] assms
  show ?thesis by auto
qed

section \<open>The claims\<close>

text \<open>Claim C1.  For every provider behaviour, user name and organisation list, the
  \<open>LocData\<close> that \<^verbatim>\<open>fetchLoc\<close> returns (either version) has
  \<open>totalAdditions\<close>, \<open>totalDeletions\<close> and \<open>totalCommits\<close> equal to the sums
  of the additions, deletions and commits over \<open>weeklyData\<close>, and \<open>netLines\<close>
  equal to \<open>totalAdditions - totalDeletions\<close>.\<close>

theorem fetchLoc_totals:
  "(fst (fetchLoc W username include_orgs) = Inr ld \<or>
    fst (fetchLoc_part000 W username include_orgs) = Inr ld) \<Longrightarrow>
     totalAdditions ld = sum_list (map additions (weeklyData ld)) \<and>
     totalDeletions ld = sum_list (map deletions (weeklyData ld)) \<and>
     totalCommits ld = sum_list (map commits (weeklyData ld)) \<and>
     netLines ld = totalAdditions ld - totalDeletions ld"
  using fetchLoc_weeks[of W username include_orgs ld]
        fetchLoc_part000_weeks[of W username include_orgs ld]
  by (auto dest: buildLocData_totals)

theorem fetchLoc_totals_witness:
  "fst (fetchLoc exampleWorld (Some ''octo'') Absent) = Inr exampleLocData \<and>
   fst (fetchLoc_part000 exampleWorld (Some ''octo'') Absent) = Inr exampleLocData \<and>
   totalAdditions exampleLocData = sum_list (map additions (weeklyData exampleLocData)) \<and>
   totalDeletions exampleLocData = sum_list (map deletions (weeklyData exampleLocData)) \<and>
   totalCommits exampleLocData = sum_list (map commits (weeklyData exampleLocData)) \<and>
   netLines exampleLocData = totalAdditions exampleLocData - totalDeletions exampleLocData"
proof -
  have h: "fst (fetchLoc exampleWorld (Some ''octo'') Absent) = Inr exampleLocData"
    by code_simp
  have h': "fst (fetchLoc_part000 exampleWorld (Some ''octo'') Absent) = Inr exampleLocData"
    by code_simp
  from fetchLoc_totals[of exampleWorld "Some ''octo''" Absent exampleLocData] h h'
  show ?thesis by blast
qed

text \<open>Claim C2.  When no week entry of the provider has a negative counter, the
  \<open>weeklyData\<close> of the \<open>LocData\<close> that \<^verbatim>\<open>fetchLoc\<close> returns (either version)
  is strictly increasing by week, so no week occurs twice, and has no record whose
  additions, deletions and commits are all zero.\<close>

theorem fetchLoc_weeklyData_strict_nonzero:
  assumes "nonNegativeCounters W"
    and "fst (fetchLoc W username include_orgs) = Inr ld \<or>
         fst (fetchLoc_part000 W username include_orgs) = Inr ld"
  shows "sorted_wrt (<) (map week (weeklyData ld)) \<and>
         distinct (map week (weeklyData ld)) \<and>
         (\<forall>x \<in> set (weeklyData ld). \<not> (additions x = 0 \<and> deletions x = 0 \<and> commits x = 0))"
proof -
  from assms(2) fetchLoc_weeks[of W username include_orgs ld]
       fetchLoc_part000_weeks[of W username include_orgs ld]
  obtain wks where wks: "set wks \<subseteq> worldWeeks W" "buildLocData (mergeWeeks wks []) = Inr ld"
    by blast
  have d: "distinct (map fst (mergeWeeks wks []))"
    by (rule distinct_mergeWeeks) simp
  from wks(1) assms(1)
  have "\<forall>wk \<in> set wks. 0 \<le> wk_a wk \<and> 0 \<le> wk_d wk \<and> 0 \<le> wk_c wk"
    by (auto simp: nonNegativeCounters_def)
  then have g: "\<forall>k s. map_of (mergeWeeks wks []) k = Some s \<longrightarrow> goodSlot s"
    by (intro goodSlot_mergeWeeks) simp_all
  have s: "sorted_wrt (<) (map week (weeklyData ld))"
    by (rule buildLocData_strict[OF d wks(2)])
  then have "distinct (map week (weeklyData ld))"
    by (simp add: strict_sorted_iff)
  with s buildLocData_nonzero[OF g wks(2)] show ?thesis by blast
qed

theorem fetchLoc_weeklyData_strict_nonzero_witness:
  "nonNegativeCounters exampleWorld \<and>
   fst (fetchLoc exampleWorld (Some ''octo'') Absent) = Inr exampleLocData \<and>
   fst (fetchLoc_part000 exampleWorld (Some ''octo'') Absent) = Inr exampleLocData \<and>
   sorted_wrt (<) (map week (weeklyData exampleLocData)) \<and>
   distinct (map week (weeklyData exampleLocData)) \<and>
   \<not> (\<exists>x \<in> set (weeklyData exampleLocData).
         additions x = 0 \<and> deletions x = 0 \<and> commits x = 0)"
proof -
  have n: "nonNegativeCounters exampleWorld"
    unfolding nonNegativeCounters_def worldWeeks_def exampleWorld_def
    by (auto split: if_splits)
  have h: "fst (fetchLoc exampleWorld (Some ''octo'') Absent) = Inr exampleLocData"
    by code_simp
  have h': "fst (fetchLoc_part000 exampleWorld (Some ''octo'') Absent) = Inr exampleLocData"
    by code_simp
  from fetchLoc_weeklyData_strict_nonzero[of exampleWorld "Some ''octo''" Absent exampleLocData]
       n h h'
  show ?thesis by blast
qed

text \<open>Claim C3, at the inputs where the code departs from it.  The claim says that
  for a user name that is not empty nothing makes \<^verbatim>\<open>fetchLoc\<close> fail.  When the
  statistics of a repository list the user without \<^verbatim>\<open>weeks\<close>, the parallel
  version ends with a \<^verbatim>\<open>TypeError\<close>, while the sequential version absorbs the same
  payload and returns the empty series.  When \<^verbatim>\<open>include_orgs\<close> is an array, both
  versions end with a \<^verbatim>\<open>TypeError\<close> after the listing of the user's repositories has
  been requested.\<close>

theorem fetchLoc_fatal_beyond_username:
  "fetchLoc_part000 brokenWorld (Some ''octo'') Absent =
     (Inl TypeError, [UserReposRequest ''octo''],
      [[RepoStatsRequest \<lparr>owner = ''octo'', name = ''a''\<rparr>]]) \<and>
   fetchLoc brokenWorld (Some ''octo'') Absent =
     (Inr emptyData, [UserReposRequest ''octo'', RepoStatsRequest \<lparr>owner = ''octo'', name = ''a''\<rparr>]) \<and>
   fetchLoc exampleWorld (Some ''octo'') (Repeated [''x'', ''y'']) =
     (Inl TypeError, [UserReposRequest ''octo'']) \<and>
   fetchLoc_part000 exampleWorld (Some ''octo'') (Repeated [''x'', ''y'']) =
     (Inl TypeError, [UserReposRequest ''octo''], [])"
  by code_simp

text \<open>Claim C4.  No version of \<^verbatim>\<open>renderLocChart\<close> raises: each returns an image for
  every \<open>LocData\<close>, options and clock.  For an empty \<open>weeklyData\<close> the image is
  the fixed 850 by 300 canvas with a background rectangle and the centred text
  ``No data available'' and nothing else.  In the cumulative versions the visible
  point list is never empty, and a time range or value range of zero is replaced by
  1, so neither divisor is zero.\<close>

theorem renderLocChart_never_raises:
  \<open>noDataSvg bg_color text_color =
     ''<svg width="850" height="300" xmlns="http://www.w3.org/2000/svg">'' @ [CHR 0x0A]
     @ ''      <rect width="100%" height="100%" fill="#'' @ bg_color @ ''" />'' @ [CHR 0x0A]
     @ ''      <text x="50%" y="50%" fill="#'' @ text_color
       @ ''" text-anchor="middle" font-family="'' @ [CHR 0x27] @ ''Segoe UI'' @ [CHR 0x27]
       @ '', Ubuntu, Sans-Serif" font-size="14">No data available</text>'' @ [CHR 0x0A]
     @ ''    </svg>'' \<and>
   (\<exists>r. renderLocChart cc title months now dat = Inr r) \<and>
   (\<exists>r. renderLocChart_v1 bg tx title now dat = Inr r) \<and>
   (\<exists>r. renderLocChart_sqrt cc title months now dat = Inr r) \<and>
   (\<exists>r. renderLocChart_monthly cal cc title months dat = Inr r) \<and>
   (weeklyData dat = [] \<longrightarrow>
      renderLocChart cc title months now dat =
        Inr (NoData (noDataSvg (bg_color_of cc) (text_color_of cc))) \<and>
      renderLocChart_v1 None None title now dat = Inr (NoData (noDataSvg ''0D1117'' ''E6EDF3'')) \<and>
      renderLocChart_sqrt cc title months now dat =
        Inr (NoData (noDataSvg (bg_color_of cc) (text_color_of cc))) \<and>
      renderLocChart_monthly cal cc title months dat =
        Inr (NoData (noDataSvg (bg_color_of cc) (text_color_of cc)))) \<and>
   (\<forall>ch. renderLocChart cc title months now dat = Inr (Chart ch) \<or>
         renderLocChart_v1 bg tx title now dat = Inr (Chart ch) \<or>
         renderLocChart_sqrt cc title months now dat = Inr (Chart ch) \<longrightarrow>
      cc_points ch \<noteq> [] \<and> cc_timeRange ch \<noteq> 0 \<and> cc_valRange ch \<noteq> 0 \<and>
      cc_timeRange ch =
        (if p_week (last (cc_points ch)) - p_week (hd (cc_points ch)) = 0 then 1
         else p_week (last (cc_points ch)) - p_week (hd (cc_points ch))) \<and>
      cc_valRange ch =
        (if Max (set (0 # map p_value (cc_points ch))) - Min (set (0 # map p_value (cc_points ch))) = 0
         then 1
         else Max (set (0 # map p_value (cc_points ch))) - Min (set (0 # map p_value (cc_points ch)))))\<close>
proof -
  have chart: "cc_points ch \<noteq> [] \<and> cc_timeRange ch \<noteq> 0 \<and> cc_valRange ch \<noteq> 0 \<and>
      cc_timeRange ch =
        (if p_week (last (cc_points ch)) - p_week (hd (cc_points ch)) = 0 then 1
         else p_week (last (cc_points ch)) - p_week (hd (cc_points ch))) \<and>
      cc_valRange ch =
        (if Max (set (0 # map p_value (cc_points ch))) - Min (set (0 # map p_value (cc_points ch))) = 0
         then 1
         else Max (set (0 # map p_value (cc_points ch))) - Min (set (0 # map p_value (cc_points ch))))"
    if "cumulativeLayout scale yTicks dotCount b t title mo now dat = Inr (Chart ch)"
    for scale yTicks dotCount b t mo ch
  proof -
    from that have ne: "weeklyData dat \<noteq> []"
      by (auto simp: cumulativeLayout_def)
    from cumulativeLayout_chart[OF ne, of scale yTicks dotCount b t title mo now] that
    have c: "cc_points ch = windowPoints mo now (cumulativePoints 0 (weeklyData dat))"
      "cc_timeRange ch = orOne (p_week (last (cc_points ch)) - p_week (hd (cc_points ch)))"
      "cc_valRange ch = orOne (Math_max (map p_value (cc_points ch)) 0
                                    - Math_min (map p_value (cc_points ch)) 0)"
      by auto
    from ne have "cumulativePoints 0 (weeklyData dat) \<noteq> []"
      using length_cumulativePoints[of 0 "weeklyData dat"] by auto
    with c(1) have "cc_points ch \<noteq> []" by (simp add: windowPoints_nonempty)
    with c(2,3) show ?thesis
      by (simp add: orOne_def Math_max_eq Math_min_eq)
  qed
  have main: "(\<exists>r. renderLocChart cc title months now dat = Inr r) \<and>
     (\<exists>r. renderLocChart_v1 bg tx title now dat = Inr r) \<and>
     (\<exists>r. renderLocChart_sqrt cc title months now dat = Inr r) \<and>
     (\<exists>r. renderLocChart_monthly cal cc title months dat = Inr r) \<and>
     (weeklyData dat = [] \<longrightarrow>
        renderLocChart cc title months now dat =
          Inr (NoData (noDataSvg (bg_color_of cc) (text_color_of cc))) \<and>
        renderLocChart_v1 None None title now dat = Inr (NoData (noDataSvg ''0D1117'' ''E6EDF3'')) \<and>
        renderLocChart_sqrt cc title months now dat =
          Inr (NoData (noDataSvg (bg_color_of cc) (text_color_of cc))) \<and>
        renderLocChart_monthly cal cc title months dat =
          Inr (NoData (noDataSvg (bg_color_of cc) (text_color_of cc)))) \<and>
     (\<forall>ch. renderLocChart cc title months now dat = Inr (Chart ch) \<or>
           renderLocChart_v1 bg tx title now dat = Inr (Chart ch) \<or>
           renderLocChart_sqrt cc title months now dat = Inr (Chart ch) \<longrightarrow>
        cc_points ch \<noteq> [] \<and> cc_timeRange ch \<noteq> 0 \<and> cc_valRange ch \<noteq> 0 \<and>
        cc_timeRange ch =
          (if p_week (last (cc_points ch)) - p_week (hd (cc_points ch)) = 0 then 1
           else p_week (last (cc_points ch)) - p_week (hd (cc_points ch))) \<and>
        cc_valRange ch =
          (if Max (set (0 # map p_value (cc_points ch))) - Min (set (0 # map p_value (cc_points ch))) = 0
           then 1
           else Max (set (0 # map p_value (cc_points ch))) - Min (set (0 # map p_value (cc_points ch)))))"
    unfolding renderLocChart_def renderLocChart_v1_def renderLocChart_sqrt_def
    using chart
    by (auto simp: cumulativeLayout_total renderLocChart_monthly_total cumulativeLayout_empty
                   renderLocChart_monthly_empty simp del: Max_insert Min_insert)
  show ?thesis by (rule conjI[OF noDataSvg_text main])
qed

theorem renderLocChart_never_raises_witness:
  "weeklyData emptyData = [] \<and>
   renderLocChart exampleColors None None 1700000000000 emptyData =
     Inr (NoData (noDataSvg ''fffefe'' ''434d58'')) \<and>
   renderLocChart_v1 None None None 1700000000000 emptyData =
     Inr (NoData (noDataSvg ''0D1117'' ''E6EDF3'')) \<and>
   map_option cc_timeRange (chartOf (renderLocChart exampleColors None None 1700000000000 flatData))
     = Some 1 \<and>
   map_option cc_valRange (chartOf (renderLocChart exampleColors None None 1700000000000 flatData))
     = Some 1"
proof -
  have e: "weeklyData emptyData = []" by (simp add: emptyData_def)
  have c: "bg_color_of exampleColors = ''fffefe''" "text_color_of exampleColors = ''434d58''"
    by (simp_all add: bg_color_of_def text_color_of_def exampleColors_def stripHash_def)
  note t1 = renderLocChart_never_raises[of _ _ exampleColors None None 1700000000000 emptyData
              None None utcYearMonth, THEN conjunct2]
  note t2 = renderLocChart_never_raises[of _ _ exampleColors None None 1700000000000 flatData
              None None utcYearMonth, THEN conjunct2]
  from t1 e c have 1: "renderLocChart exampleColors None None 1700000000000 emptyData =
     Inr (NoData (noDataSvg ''fffefe'' ''434d58''))"
    and 2: "renderLocChart_v1 None None None 1700000000000 emptyData =
     Inr (NoData (noDataSvg ''0D1117'' ''E6EDF3''))"
    by simp_all
  obtain ch where ch: "renderLocChart exampleColors None None 1700000000000 flatData = Inr (Chart ch)"
    "cc_points ch = [\<lparr>p_week = 1700000000, p_value = 0, p_additions = 5, p_deletions = 5\<rparr>]"
    using cumulativeLayout_chart[of flatData "\<lambda>x. x" 4 8 "bg_color_of exampleColors"
            "text_color_of exampleColors" None None 1700000000000]
    by (auto simp: renderLocChart_def flatData_def windowPoints_def Let_def)
  with t2 have "cc_timeRange ch = 1 \<and> cc_valRange ch = 1"
    by simp
  with ch(1) e 1 2 show ?thesis by (simp add: chartOf_def)
qed

text \<open>Claim C5.  When the first statistics call for a repository answers with status
  202, the collector pauses once (1500 ms in the parallel version, 2000 ms in the
  sequential one) and calls exactly one more time.  If the second answer is not a
  list, the repository adds nothing: \<^verbatim>\<open>fetchOneRepo\<close> is fulfilled with
  \<^verbatim>\<open>null\<close>, which the merge loop skips, and the sequential \<^verbatim>\<open>try\<close> block ends
  without an exception and with the map unchanged.\<close>

theorem computing_signal_retried_once:
  assumes "statsCall W r 0 = Inr res0" and "status res0 = 202"
  shows "snd (fetchOneRepo W username r) = [RepoStatsRequest r, Sleep 1500, RepoStatsRequest r] \<and>
         snd (tryRepo W username r m) = [RepoStatsRequest r, Sleep 2000, RepoStatsRequest r] \<and>
         (\<forall>res1. statsCall W r 1 = Inr res1 \<and> data res1 = NotArray \<longrightarrow>
            fst (fetchOneRepo W username r) = Fulfilled None \<and>
            mergeResults (fst (fetchOneRepo W username r) # rest) m = mergeResults rest m \<and>
            fst (tryRepo W username r m) = Inr m)"
  using assms
  by (auto simp: fetchOneRepo_def tryRepo_def Let_def split: sum.splits payload.splits)

theorem computing_signal_retried_once_witness:
  "statsCall busyWorld \<lparr>owner = ''o'', name = ''n''\<rparr> 0 = Inr \<lparr>status = 202, data = NotArray\<rparr> \<and>
   status \<lparr>status = 202, data = NotArray\<rparr> = 202 \<and>
   statsCall busyWorld \<lparr>owner = ''o'', name = ''n''\<rparr> 1 = Inr \<lparr>status = 202, data = NotArray\<rparr> \<and>
   data \<lparr>status = 202, data = NotArray\<rparr> = NotArray \<and>
   fetchOneRepo busyWorld ''octo'' \<lparr>owner = ''o'', name = ''n''\<rparr> =
     (Fulfilled None, [RepoStatsRequest \<lparr>owner = ''o'', name = ''n''\<rparr>, Sleep 1500,
                       RepoStatsRequest \<lparr>owner = ''o'', name = ''n''\<rparr>]) \<and>
   tryRepo busyWorld ''octo'' \<lparr>owner = ''o'', name = ''n''\<rparr> [] =
     (Inr [], [RepoStatsRequest \<lparr>owner = ''o'', name = ''n''\<rparr>, Sleep 2000,
               RepoStatsRequest \<lparr>owner = ''o'', name = ''n''\<rparr>]) \<and>
   mergeResults [fst (fetchOneRepo busyWorld ''octo'' \<lparr>owner = ''o'', name = ''n''\<rparr>)] [] = Inr []"
proof -
  have a: "statsCall busyWorld \<lparr>owner = ''o'', name = ''n''\<rparr> 0 = Inr \<lparr>status = 202, data = NotArray\<rparr>"
    by (simp add: busyWorld_def)
  have b: "status \<lparr>status = 202, data = NotArray\<rparr> = 202" by simp
  have c: "statsCall busyWorld \<lparr>owner = ''o'', name = ''n''\<rparr> 1 = Inr \<lparr>status = 202, data = NotArray\<rparr>"
    by (simp add: busyWorld_def)
  from computing_signal_retried_once[OF a b, of "''octo''" "[]" "[]"] a c
  show ?thesis by (simp add: prod_eq_iff)
qed

text \<open>Claim C6.  Aggregation does not depend on the order of the per-repository
  results: for every permutation of the settled results the parallel version's
  aggregation returns the same value, and for every permutation of the repository
  list the sequential version builds the same \<open>LocData\<close>.  (Being a function, the
  aggregation returns the same output whenever it is run on the same input.)\<close>

theorem aggregate_order_independent:
  assumes "mset results = mset results'" and "mset repos = mset repos'"
  shows "aggregate results = aggregate results' \<and>
         buildLocData (fst (repoLoop W username repos [])) =
           buildLocData (fst (repoLoop W username repos' []))"
proof
  from assms(1) have "set results = set results'" by (rule mset_eq_setD)
  moreover from assms(1)
  have "buildLocData (mergeWeeks (concat (map resultWeeks results)) []) =
        buildLocData (mergeWeeks (concat (map resultWeeks results')) [])"
    by (intro buildLocData_mergeWeeks_perm mset_concat_map_cong)
  ultimately show "aggregate results = aggregate results'"
    by (simp add: aggregate_def mergeResults_eq)
next
  from assms(2)
  show "buildLocData (fst (repoLoop W username repos [])) =
        buildLocData (fst (repoLoop W username repos' []))"
    unfolding repoLoop_eq by (intro buildLocData_mergeWeeks_perm mset_concat_map_cong)
qed

theorem aggregate_order_independent_witness:
  "mset exampleResults = mset (rev exampleResults) \<and>
   mset [\<lparr>owner = ''octo'', name = ''a''\<rparr>, \<lparr>owner = ''octo'', name = ''b''\<rparr>] =
     mset [\<lparr>owner = ''octo'', name = ''b''\<rparr>, \<lparr>owner = ''octo'', name = ''a''\<rparr>] \<and>
   aggregate exampleResults = aggregate (rev exampleResults) \<and>
   buildLocData (fst (repoLoop exampleWorld ''octo''
       [\<lparr>owner = ''octo'', name = ''a''\<rparr>, \<lparr>owner = ''octo'', name = ''b''\<rparr>] [])) =
   buildLocData (fst (repoLoop exampleWorld ''octo''
       [\<lparr>owner = ''octo'', name = ''b''\<rparr>, \<lparr>owner = ''octo'', name = ''a''\<rparr>] []))"
proof -
  have a: "mset exampleResults = mset (rev exampleResults)" by simp
  have b: "mset [\<lparr>owner = ''octo'', name = ''a''\<rparr>, \<lparr>owner = ''octo'', name = ''b''\<rparr>] =
     mset [\<lparr>owner = ''octo'', name = ''b''\<rparr>, \<lparr>owner = ''octo'', name = ''a''\<rparr>]" by simp
  from aggregate_order_independent[OF a b, of exampleWorld "''octo''"] a b
  show ?thesis by blast
qed

text \<open>Claim C7.  In the cumulative versions that read the months option, for
  \<open>m > 0\<close> and a series that is not empty, the visible points are the points whose
  week is at least \<open>now / 1000 - m * 30 * 86400\<close> (in their order), unless there is
  no such point, in which case they are all the points; so the visible point list is
  never empty.\<close>

theorem months_window_visible_points:
  assumes "0 < m" and "weeklyData dat \<noteq> []"
  shows "\<exists>ch ch'. renderLocChart cc title (Some m) now dat = Inr (Chart ch) \<and>
           renderLocChart_sqrt cc title (Some m) now dat = Inr (Chart ch') \<and>
           cc_points ch' = cc_points ch \<and>
           cc_points ch \<noteq> [] \<and>
           (let allPoints = cumulativePoints 0 (weeklyData dat);
                inWindow = filter (\<lambda>p. of_int now / 1000 - of_int m * 30 * 86400
                                          \<le> (of_int (p_week p) :: real)) allPoints
            in cc_points ch = (if inWindow = [] then allPoints else inWindow))"
proof -
  from cumulativeLayout_chart[OF assms(2), of "\<lambda>x. x" 4 8 "bg_color_of cc" "text_color_of cc"
         title "Some m" now]
  obtain ch where ch: "renderLocChart cc title (Some m) now dat = Inr (Chart ch)"
    "cc_points ch = windowPoints (Some m) now (cumulativePoints 0 (weeklyData dat))"
    unfolding renderLocChart_def by blast
  from cumulativeLayout_chart[OF assms(2), of sqrt 5 12 "bg_color_of cc" "text_color_of cc"
         title "Some m" now]
  obtain ch' where ch': "renderLocChart_sqrt cc title (Some m) now dat = Inr (Chart ch')"
    "cc_points ch' = windowPoints (Some m) now (cumulativePoints 0 (weeklyData dat))"
    unfolding renderLocChart_sqrt_def by blast
  from assms(2) have "cumulativePoints 0 (weeklyData dat) \<noteq> []"
    using length_cumulativePoints[of 0 "weeklyData dat"] by auto
  then have "cc_points ch \<noteq> []" unfolding ch(2) by (rule windowPoints_nonempty)
  with ch ch' windowPoints_Some[OF assms(1), of now "cumulativePoints 0 (weeklyData dat)"]
  show ?thesis by (intro exI[of _ ch] exI[of _ ch']) (simp add: Let_def)
qed

theorem months_window_visible_points_witness:
  "(0::int) < 1 \<and> weeklyData windowData \<noteq> [] \<and>
   chartPoints (renderLocChart exampleColors None (Some 1) 1700000000000 windowData) =
     [\<lparr>p_week = 1699999999, p_value = 120, p_additions = 50, p_deletions = 10\<rparr>] \<and>
   chartPoints (renderLocChart_sqrt exampleColors None (Some 1) 9900000000000 windowData) =
     [\<lparr>p_week = 0, p_value = 80, p_additions = 100, p_deletions = 20\<rparr>,
      \<lparr>p_week = 1699999999, p_value = 120, p_additions = 50, p_deletions = 10\<rparr>]"
proof -
  have a: "(0::int) < 1" by simp
  have b: "weeklyData windowData \<noteq> []" by (simp add: windowData_def)
  from months_window_visible_points[OF a b, of exampleColors None 1700000000000]
  have 1: "chartPoints (renderLocChart exampleColors None (Some 1) 1700000000000 windowData) =
     [\<lparr>p_week = 1699999999, p_value = 120, p_additions = 50, p_deletions = 10\<rparr>]"
    by (auto simp: chartPoints_def windowData_def Let_def)
  from months_window_visible_points[OF a b, of exampleColors None 9900000000000]
  have 2: "chartPoints (renderLocChart_sqrt exampleColors None (Some 1) 9900000000000 windowData) =
     [\<lparr>p_week = 0, p_value = 80, p_additions = 100, p_deletions = 20\<rparr>,
      \<lparr>p_week = 1699999999, p_value = 120, p_additions = 50, p_deletions = 10\<rparr>]"
    by (auto simp: chartPoints_def windowData_def Let_def)
  from a b 1 2 show ?thesis by blast
qed

text \<open>Claim C8, amended.  The running net-lines total is built over the whole series
  before the window is applied: the value of every visible point is the sum of
  additions minus deletions over all weekly records up to and including its own week,
  also those the window hides.  When the window hides nothing this is the sum over the
  first \<open>i\<close> visible points.  The value is plotted on the vertical axis (linearly
  between the smallest and the largest of the visible values and 0) against the week
  on the horizontal axis (linearly, or by the square root of the elapsed fraction).\<close>

theorem cumulative_values_from_full_history:
  assumes "renderLocChart cc title months now dat = Inr (Chart ch) \<or>
           renderLocChart_sqrt cc title months now dat = Inr (Chart ch)"
  shows "(\<forall>p \<in> set (cc_points ch). \<exists>i<length (weeklyData dat).
            p_week p = week (weeklyData dat ! i) \<and>
            p_value p = (\<Sum>x\<leftarrow>take (Suc i) (weeklyData dat). additions x - deletions x)) \<and>
         (length (cc_points ch) = length (weeklyData dat) \<longrightarrow>
            map p_value (cc_points ch) = spec_runningNet (cc_points ch)) \<and>
         map snd (cc_pixelPts ch) =
           map (\<lambda>p. of_int padding_top + of_int chartH
                       - ((of_int (p_value p) - of_int (Min (set (0 # map p_value (cc_points ch)))))
                            / of_int (cc_valRange ch)) * of_int chartH)
               (cc_points ch) \<and>
         (renderLocChart cc title months now dat = Inr (Chart ch) \<longrightarrow>
            map fst (cc_pixelPts ch) =
              map (\<lambda>p. of_int padding_left
                         + (of_int (p_week p - p_week (hd (cc_points ch)))
                              / of_int (cc_timeRange ch)) * of_int chartW)
                  (cc_points ch)) \<and>
         (renderLocChart_sqrt cc title months now dat = Inr (Chart ch) \<longrightarrow>
            map fst (cc_pixelPts ch) =
              map (\<lambda>p. of_int padding_left
                         + sqrt (of_int (p_week p - p_week (hd (cc_points ch)))
                                   / of_int (cc_timeRange ch)) * of_int chartW)
                  (cc_points ch))"
proof -
  from assms obtain scale yTicks dotCount where
    l: "cumulativeLayout scale yTicks dotCount (bg_color_of cc) (text_color_of cc) title months now dat
          = Inr (Chart ch)"
    unfolding renderLocChart_def renderLocChart_sqrt_def by blast
  note v = cumulativeLayout_values[OF l]
  have y: "map snd (cc_pixelPts ch) =
           map (\<lambda>p. of_int padding_top + of_int chartH
                       - ((of_int (p_value p) - of_int (Min (set (0 # map p_value (cc_points ch)))))
                            / of_int (cc_valRange ch)) * of_int chartH)
               (cc_points ch)"
    by (subst v[THEN conjunct2, THEN conjunct2]) (simp add: comp_def del: Min_insert)
  have x1: "map fst (cc_pixelPts ch) =
              map (\<lambda>p. of_int padding_left
                         + (of_int (p_week p - p_week (hd (cc_points ch)))
                              / of_int (cc_timeRange ch)) * of_int chartW)
                  (cc_points ch)"
    if "renderLocChart cc title months now dat = Inr (Chart ch)"
    using cumulativeLayout_values[OF that[unfolded renderLocChart_def]]
    by (simp add: comp_def del: Min_insert)
  have x2: "map fst (cc_pixelPts ch) =
              map (\<lambda>p. of_int padding_left
                         + sqrt (of_int (p_week p - p_week (hd (cc_points ch)))
                                   / of_int (cc_timeRange ch)) * of_int chartW)
                  (cc_points ch)"
    if "renderLocChart_sqrt cc title months now dat = Inr (Chart ch)"
    using cumulativeLayout_values[OF that[unfolded renderLocChart_sqrt_def]]
    by (simp add: comp_def del: Min_insert)
  from v y x1 x2 show ?thesis by blast
qed

theorem cumulative_values_from_full_history_witness:
  "renderLocChart exampleColors None (Some 1) 1700000000000 windowData = Inr (Chart windowChart) \<and>
   renderLocChart exampleColors None None 1700000000000 windowData = Inr (Chart fullChart) \<and>
   map p_value (cc_points windowChart) = [120] \<and>
   map p_value (cc_points fullChart) = spec_runningNet (cc_points fullChart) \<and>
   map snd (cc_pixelPts windowChart) = [50] \<and>
   map fst (cc_pixelPts fullChart) = [70, 820]"
proof -
  have h: "renderLocChart exampleColors None (Some 1) 1700000000000 windowData = Inr (Chart windowChart)"
    by code_simp
  have h': "renderLocChart exampleColors None None 1700000000000 windowData = Inr (Chart fullChart)"
    by code_simp
  note t = cumulative_values_from_full_history[of exampleColors None "Some 1" 1700000000000
             windowData windowChart, OF disjI1, OF h]
  note t' = cumulative_values_from_full_history[of exampleColors None None 1700000000000
             windowData fullChart, OF disjI1, OF h']
  have 1: "map p_value (cc_points windowChart) = [120]" by (simp add: windowChart_def)
  have 2: "map p_value (cc_points fullChart) = spec_runningNet (cc_points fullChart)"
    using t' by (simp add: fullChart_def windowData_def)
  have 3: "map snd (cc_pixelPts windowChart) = [50]"
    using t by (simp add: windowChart_def)
  have 4: "map fst (cc_pixelPts fullChart) = [70, 820]"
    using t' h' by (simp add: fullChart_def)
  from h h' 1 2 3 4 show ?thesis by blast
qed

text \<open>The claim as stated fails for a window that hides a week: with the weeks 0
  (+100, -20) and 1699999999 (+50, -10), one month before the clock 1700000000 only the
  second point is visible; its plotted value is 120, while the sum over the first
  visible point alone is 40.\<close>

theorem windowed_running_total_counterexample:
  "map p_value (chartPoints (renderLocChart exampleColors None (Some 1) 1700000000000 windowData))
     = [120] \<and>
   spec_runningNet (chartPoints (renderLocChart exampleColors None (Some 1) 1700000000000 windowData))
     = [40] \<and>
   map p_value (chartPoints (renderLocChart exampleColors None (Some 1) 1700000000000 windowData))
     \<noteq> spec_runningNet
         (chartPoints (renderLocChart exampleColors None (Some 1) 1700000000000 windowData))"
  by code_simp

text \<open>Claim C9, amended.  For a series that is not empty the monthly renderer draws a
  chart whose baseline is at \<open>padding_top + chartH * (A / (A + D))\<close>, where \<open>A\<close>
  is the largest monthly additions of the visible months or 1, whichever is larger,
  and \<open>D\<close> likewise for the deletions.  When both maxima are at least 1 this is
  the specification's \<open>maxAdditions / (maxAdditions + maxDeletions)\<close>.\<close>

theorem monthly_baseline_clamped:
  assumes "weeklyData dat \<noteq> []"
  shows "\<exists>ch. renderLocChart_monthly cal cc title months dat = Inr (Chart ch) \<and>
           bc_months ch = visibleMonths cal months (weeklyData dat) \<and>
           bc_months ch \<noteq> [] \<and>
           (let A = max 1 (Max (set (map me_additions (bc_months ch))));
                D = max 1 (Max (set (map me_deletions (bc_months ch))))
            in bc_baselineY ch
                 = of_int padding_top + of_int chartH * (of_int A / of_int (A + D))) \<and>
           (1 \<le> Max (set (map me_additions (bc_months ch))) \<and>
            1 \<le> Max (set (map me_deletions (bc_months ch))) \<longrightarrow>
              bc_baselineY ch = spec_baselineY (bc_months ch))"
proof -
  from renderLocChart_monthly_chart[OF assms, of cal cc title months]
  obtain ch where ch: "renderLocChart_monthly cal cc title months dat = Inr (Chart ch)"
    "bc_months ch = visibleMonths cal months (weeklyData dat)"
    "bc_maxAdd ch = Math_max (map me_additions (bc_months ch)) 1"
    "bc_maxDel ch = Math_max (map me_deletions (bc_months ch)) 1"
    "bc_addRatio ch = of_int (bc_maxAdd ch) / of_int (bc_maxAdd ch + bc_maxDel ch)"
    "bc_baselineY ch = of_int padding_top + of_int chartH * bc_addRatio ch"
    by blast
  from ch(2) assms have ne: "bc_months ch \<noteq> []" by (simp add: visibleMonths_nonempty)
  then have a: "bc_maxAdd ch = max 1 (Max (set (map me_additions (bc_months ch))))"
    and d: "bc_maxDel ch = max 1 (Max (set (map me_deletions (bc_months ch))))"
    using ch(3,4) by (simp_all add: Math_max_one)
  have b: "bc_baselineY ch = of_int padding_top + of_int chartH *
             (of_int (max 1 (Max (set (map me_additions (bc_months ch))))) /
              of_int (max 1 (Max (set (map me_additions (bc_months ch))))
                      + max 1 (Max (set (map me_deletions (bc_months ch))))))"
    unfolding ch(6) ch(5) a d ..
  have s: "bc_baselineY ch = spec_baselineY (bc_months ch)"
    if "1 \<le> Max (set (map me_additions (bc_months ch))) \<and>
        1 \<le> Max (set (map me_deletions (bc_months ch)))"
    using that b unfolding spec_baselineY_def Let_def by (simp add: max_def)
  from ch(1,2) ne b s show ?thesis
    by (intro exI[of _ ch]) (simp add: Let_def)
qed

theorem monthly_baseline_clamped_witness:
  "weeklyData zeroAddData \<noteq> [] \<and>
   map_option bc_baselineY
     (chartOf (renderLocChart_monthly utcYearMonth exampleColors None None zeroAddData)) = Some 100 \<and>
   map_option bc_months
     (chartOf (renderLocChart_monthly utcYearMonth exampleColors None None zeroAddData)) =
     Some [\<lparr>me_year = 1970, me_month = 0, me_additions = 0, me_deletions = 3\<rparr>]"
proof -
  have a: "weeklyData zeroAddData \<noteq> []" by (simp add: zeroAddData_def)
  have v: "visibleMonths utcYearMonth None (weeklyData zeroAddData) =
     [\<lparr>me_year = 1970, me_month = 0, me_additions = 0, me_deletions = 3\<rparr>]"
    by code_simp
  from monthly_baseline_clamped[OF a, of utcYearMonth exampleColors None None] v a
  show ?thesis
    by (auto simp: chartOf_def Let_def padding_top_def chartH_def height_def padding_bottom_def
             simp del: Max_insert)
qed

text \<open>The claim as stated fails when all visible additions are zero: for one month
  with no additions and 3 deletions the baseline is at 100, not at
  \<open>50 + 200 * (0 / (0 + 3)) = 50\<close>.\<close>

theorem monthly_baseline_counterexample:
  "map_option bc_baselineY
     (chartOf (renderLocChart_monthly utcYearMonth exampleColors None None zeroAddData)) = Some 100 \<and>
   map_option (spec_baselineY \<circ> bc_months)
     (chartOf (renderLocChart_monthly utcYearMonth exampleColors None None zeroAddData)) = Some 50 \<and>
   map_option bc_baselineY
     (chartOf (renderLocChart_monthly utcYearMonth exampleColors None None zeroAddData))
     \<noteq> map_option (spec_baselineY \<circ> bc_months)
         (chartOf (renderLocChart_monthly utcYearMonth exampleColors None None zeroAddData))"
  by code_simp

text \<open>Claim C10.  The formatter of the cumulative renderers gives the plain decimal
  string (digits and a minus sign only) for every number below 1000, so for every
  negative number; the suffix K for 1000 up to 999999 and M from 1000000 on.  The
  formatter of the monthly renderer decides by the absolute value, so large negative
  numbers get a suffix there.  The number \<open>-1500000\<close> is printed as
  \<open>-1500000\<close> by the former and as \<open>-1.5M\<close> by the latter, and the net-lines
  label of each chart is the formatter's string followed by `` net''.\<close>

theorem formatNum_negative_plain:
  "(n < 1000 \<longrightarrow> formatNum n = toString n) \<and>
   (n < 0 \<longrightarrow> formatNum n = ''-'' @ digits (nat (- n))) \<and>
   set (toString n) \<subseteq> set ''-0123456789'' \<and>
   (1000 \<le> n \<and> n < 1000000 \<longrightarrow> formatNum n = toFixed1 (toDouble (of_int n / 1000)) @ ''K'') \<and>
   (1000000 \<le> n \<longrightarrow> formatNum n = toFixed1 (toDouble (of_int n / 1000000)) @ ''M'') \<and>
   (\<bar>n\<bar> < 1000 \<longrightarrow> formatNum_monthly n = toString n) \<and>
   (1000 \<le> \<bar>n\<bar> \<and> \<bar>n\<bar> < 1000000 \<longrightarrow>
      formatNum_monthly n = toFixed1 (toDouble (of_int n / 1000)) @ ''K'') \<and>
   (1000000 \<le> \<bar>n\<bar> \<longrightarrow> formatNum_monthly n = toFixed1 (toDouble (of_int n / 1000000)) @ ''M'') \<and>
   formatNum (- 1500000) = ''-1500000'' \<and>
   formatNum_monthly (- 1500000) = ''-1.5M'' \<and>
   (\<forall>ch. netLines dat = n \<and>
         (renderLocChart cc title months now dat = Inr (Chart ch) \<or>
          renderLocChart_v1 bg tx title now dat = Inr (Chart ch) \<or>
          renderLocChart_sqrt cc title months now dat = Inr (Chart ch)) \<longrightarrow>
      cc_stats ch ! 2 = formatNum n @ '' net'') \<and>
   (\<forall>ch. netLines dat = n \<and> renderLocChart_monthly cal cc title months dat = Inr (Chart ch) \<longrightarrow>
      bc_stats ch ! 2 = formatNum_monthly n @ '' net'')"
proof -
  have 1: "cc_stats ch ! 2 = formatNum n @ '' net''"
    if "netLines dat = n \<and>
         (renderLocChart cc title months now dat = Inr (Chart ch) \<or>
          renderLocChart_v1 bg tx title now dat = Inr (Chart ch) \<or>
          renderLocChart_sqrt cc title months now dat = Inr (Chart ch))" for ch
  proof -
    from that obtain scale yTicks dotCount b t mo where
      "cumulativeLayout scale yTicks dotCount b t title mo now dat = Inr (Chart ch)"
      unfolding renderLocChart_def renderLocChart_v1_def renderLocChart_sqrt_def by blast
    from cumulativeLayout_stats[OF this] that show ?thesis by simp
  qed
  have 2: "bc_stats ch ! 2 = formatNum_monthly n @ '' net''"
    if "netLines dat = n \<and> renderLocChart_monthly cal cc title months dat = Inr (Chart ch)" for ch
    using renderLocChart_monthly_stats[of cal cc title months dat ch] that by simp
  have 3: "(n < 1000 \<longrightarrow> formatNum n = toString n) \<and>
   (n < 0 \<longrightarrow> formatNum n = ''-'' @ digits (nat (- n))) \<and>
   (1000 \<le> n \<and> n < 1000000 \<longrightarrow> formatNum n = toFixed1 (toDouble (of_int n / 1000)) @ ''K'') \<and>
   (1000000 \<le> n \<longrightarrow> formatNum n = toFixed1 (toDouble (of_int n / 1000000)) @ ''M'')"
    by (simp add: formatNum_def toString_def)
  have 4: "(\<bar>n\<bar> < 1000 \<longrightarrow> formatNum_monthly n = toString n) \<and>
   (1000 \<le> \<bar>n\<bar> \<and> \<bar>n\<bar> < 1000000 \<longrightarrow>
      formatNum_monthly n = toFixed1 (toDouble (of_int n / 1000)) @ ''K'') \<and>
   (1000000 \<le> \<bar>n\<bar> \<longrightarrow> formatNum_monthly n = toFixed1 (toDouble (of_int n / 1000000)) @ ''M'')"
    by (simp add: formatNum_monthly_def Let_def)
  from 1 2 3 4 toString_chars[of n] formatNum_neg_example formatNum_monthly_neg_example
  show ?thesis by blast
qed

theorem formatNum_negative_plain_witness:
  "netLines negData = - 1500000 \<and>
   formatNum (- 1500000) = ''-1500000'' \<and>
   formatNum 999 = ''999'' \<and>
   formatNum 1234 = ''1.2K'' \<and>
   formatNum 1450000 = ''1.4M'' \<and>
   formatNum_monthly (- 1234) = ''-1.2K'' \<and>
   formatNum_monthly (- 1500000) = ''-1.5M'' \<and>
   (\<exists>ch. renderLocChart exampleColors None None 1700000000000 negData = Inr (Chart ch) \<and>
         cc_stats ch ! 2 = ''-1500000 net'') \<and>
   (\<exists>ch. renderLocChart_monthly utcYearMonth exampleColors None None negData = Inr (Chart ch) \<and>
         bc_stats ch ! 2 = ''-1.5M net'')"
proof -
  note ev = toString_def toFixed1_def toDouble_def roundHalfEven_def digitChar_def Let_def
            digits.simps log2floor.simps
  have n: "netLines negData = - 1500000" by (simp add: negData_def)
  from formatNum_negative_plain[of "- 1500000" negData exampleColors None None 1700000000000
         None None utcYearMonth]
  have a: "formatNum (- 1500000) = ''-1500000''" "formatNum_monthly (- 1500000) = ''-1.5M''"
    by blast+
  from formatNum_negative_plain[of 999] have b: "formatNum 999 = ''999''"
    by (simp add: ev)
  from formatNum_negative_plain[of 1234] have c: "formatNum 1234 = ''1.2K''"
    by (simp add: ev)
  from formatNum_negative_plain[of 1450000] have d: "formatNum 1450000 = ''1.4M''"
    by (simp add: ev)
  from formatNum_negative_plain[of "- 1234"] have e: "formatNum_monthly (- 1234) = ''-1.2K''"
    by (simp add: ev)
  have ne: "weeklyData negData \<noteq> []" by (simp add: negData_def)
  from cumulativeLayout_chart[OF ne, of "\<lambda>x. x" 4 8 "bg_color_of exampleColors"
         "text_color_of exampleColors" None None 1700000000000]
  obtain ch where ch: "renderLocChart exampleColors None None 1700000000000 negData = Inr (Chart ch)"
    unfolding renderLocChart_def by blast
  from formatNum_negative_plain[of "- 1500000" negData exampleColors None None 1700000000000
         None None utcYearMonth] n ch a
  have "cc_stats ch ! 2 = ''-1500000 net''" by simp
  with ch have f: "\<exists>ch. renderLocChart exampleColors None None 1700000000000 negData = Inr (Chart ch) \<and>
         cc_stats ch ! 2 = ''-1500000 net''" by blast
  from renderLocChart_monthly_chart[OF ne, of utcYearMonth exampleColors None None]
  obtain ch' where ch': "renderLocChart_monthly utcYearMonth exampleColors None None negData = Inr (Chart ch')"
    by blast
  from formatNum_negative_plain[of "- 1500000" negData exampleColors None None 1700000000000
         None None utcYearMonth] n ch' a
  have "bc_stats ch' ! 2 = ''-1.5M net''" by simp
  with ch' have g: "\<exists>ch. renderLocChart_monthly utcYearMonth exampleColors None None negData = Inr (Chart ch) \<and>
         bc_stats ch ! 2 = ''-1.5M net''" by blast
  from n a b c d e f g show ?thesis by blast
qed

end
